theory Spec2Isabelle
  imports Main "HOL-Library.Word"
begin

section \<open>JavaScript values of the request\<close>

text \<open>
  The service (\<^verbatim>\<open>src/server.js\<close>) is an Express application. The body of a request
  is a parsed JSON document, so the values the handler of \<^verbatim>\<open>POST /convert\<close> reads are
  JavaScript values: \<^verbatim>\<open>undefined\<close> for a missing property, \<^verbatim>\<open>null\<close>, booleans,
  numbers, strings, arrays and objects.

  Numbers are IEEE doubles in JavaScript. The model has \<^verbatim>\<open>NaN\<close>, the two infinities and
  the doubles whose value is an integer: \<open>Fin i\<close> stands for the double of value \<open>i\<close>, so
  \<open>i\<close> is an integer that a double holds (\<open>is_double\<close> below). Fractions and the sign
  of zero are outside the model. Strings are lists of 8-bit characters.

  An error thrown or a promise rejected is an error object with its name and message.
\<close>

record js_error =
  name :: string
  message :: string

datatype jsnum = NaN | Fin int | PosInf | NegInf

datatype jsval =
    JUndefined
  | JNull
  | JBool bool
  | JNum jsnum
  | JStr string
  | JArr "jsval list"
  | JObj "(string \<times> jsval) list"

type_synonym props = "(string \<times> jsval) list"

subsection \<open>Integers and doubles\<close>

text \<open>
  A double has 53 significant bits. The double nearest to a natural number keeps the
  number when it has at most 53 bits, and otherwise rounds it to 53 bits, a tie going to
  the even neighbour; what rounds to \<open>2\<^sup>1\<^sup>0\<^sup>2\<^sup>4\<close> or more is infinite (\<open>None\<close>).
\<close>

function bit_length :: "nat \<Rightarrow> nat" where
  "bit_length n = (if n = 0 then 0 else Suc (bit_length (n div 2)))"
  by pat_completeness auto
termination
  by (relation "measure id") auto

declare bit_length.simps [simp del]

definition to_double :: "nat \<Rightarrow> nat option" where
  "to_double n =
     (let b = bit_length n
      in if b \<le> 53 then Some n
         else (let e = b - 53;
                   q = n div 2 ^ e;
                   r = n mod 2 ^ e;
                   half = 2 ^ (e - 1);
                   q' = (if half < r \<or> (r = half \<and> odd q) then q + 1 else q)
               in if q' * 2 ^ e < 2 ^ 1024 then Some (q' * 2 ^ e) else None))"

definition is_double :: "int \<Rightarrow> bool" where
  "is_double i = (to_double (nat \<bar>i\<bar>) = Some (nat \<bar>i\<bar>))"

subsection \<open>Printing numbers\<close>

definition digit_char :: "nat \<Rightarrow> char" where
  "digit_char d = ''0123456789'' ! d"

function show_nat :: "nat \<Rightarrow> string" where
  "show_nat n = (if n < 10 then [digit_char n] else show_nat (n div 10) @ [digit_char (n mod 10)])"
  by pat_completeness auto
termination
  by (relation "measure id") auto

declare show_nat.simps [simp del]

text \<open>
  \<^verbatim>\<open>Number::toString\<close> of ECMAScript prints a positive number \<open>x\<close> from the digits \<open>s\<close>
  and the exponent \<open>e\<close> such that \<open>s \<times> 10\<^sup>e\<close> is a number whose nearest double is \<open>x\<close>,
  with as few digits in \<open>s\<close> as possible; among several such \<open>s\<close> the one nearest to \<open>x\<close>,
  and the even one of two that are equally near. For an integer \<open>x\<close> of \<open>d\<close> digits, a
  candidate of \<open>k\<close> digits has the exponent \<open>d - k\<close> or \<open>d + 1 - k\<close> and is the quotient of
  \<open>x\<close> by the power of ten or the next integer. The search goes through \<open>k = 1, \<dots>, d\<close>;
  for a double it ends at \<open>k = d\<close> at the latest, where \<open>x\<close> itself is a candidate.
\<close>

definition digit_candidates :: "nat \<Rightarrow> nat \<Rightarrow> (nat \<times> nat) list" where
  "digit_candidates x k =
     (let d = length (show_nat x)
      in [(s, e). e \<leftarrow> [d - k, d + 1 - k], s \<leftarrow> [x div 10 ^ e, x div 10 ^ e + 1],
            10 ^ (k - 1) \<le> s \<and> s < 10 ^ k \<and> to_double (s * 10 ^ e) = Some x])"

fun first_candidates :: "nat \<Rightarrow> nat list \<Rightarrow> (nat \<times> nat) list" where
  "first_candidates x [] = [(x, 0)]"
| "first_candidates x (k # ks) =
     (if digit_candidates x k = [] then first_candidates x ks else digit_candidates x k)"

definition distance :: "nat \<Rightarrow> nat \<times> nat \<Rightarrow> nat" where
  "distance x c = (let v = fst c * 10 ^ snd c in if x \<le> v then v - x else x - v)"

fun closest :: "nat \<Rightarrow> (nat \<times> nat) list \<Rightarrow> nat \<times> nat" where
  "closest x [] = (x, 0)"
| "closest x [c] = c"
| "closest x (c # c' # cs) =
     (let best = closest x (c' # cs)
      in if distance x c < distance x best \<or> (distance x c = distance x best \<and> even (fst c))
         then c else best)"

definition shortest :: "nat \<Rightarrow> nat \<times> nat" where
  "shortest x = closest x (first_candidates x [1 ..< Suc (length (show_nat x))])"

text \<open>
  With \<open>n\<close> the number of digits before the decimal point: up to \<open>n = 21\<close> the digits are
  followed by zeros; beyond, the notation is the first digit, a point and the other
  digits when there are any, then \<^verbatim>\<open>e+\<close> and \<open>n - 1\<close>.
\<close>

definition show_positive :: "nat \<Rightarrow> string" where
  "show_positive x =
     (case shortest x of
        (s, e) \<Rightarrow>
          (let ds = show_nat s; n = length ds + e
           in if n \<le> 21 then ds @ replicate e CHR ''0''
              else (if length ds = 1 then ds else hd ds # CHR ''.'' # tl ds)
                     @ ''e+'' @ show_nat (n - 1)))"

definition show_int :: "int \<Rightarrow> string" where
  "show_int i =
     (if i = 0 then ''0''
      else (if i < 0 then ''-'' else '''') @ show_positive (nat \<bar>i\<bar>))"

definition show_num :: "jsnum \<Rightarrow> string" where
  "show_num x =
     (case x of
        NaN \<Rightarrow> ''NaN''
      | PosInf \<Rightarrow> ''Infinity''
      | NegInf \<Rightarrow> ''-Infinity''
      | Fin i \<Rightarrow> show_int i)"

subsection \<open>\<^verbatim>\<open>ToString\<close>, \<^verbatim>\<open>typeof\<close> and truthiness\<close>

text \<open>
  \<^verbatim>\<open>ToString\<close> of an object asks the object for its \<^verbatim>\<open>toString\<close> and then for its
  \<^verbatim>\<open>valueOf\<close>, and throws a \<^verbatim>\<open>TypeError\<close> when neither is a function that returns a
  primitive value. An object that comes from JSON has no function among its own
  properties: without an own property \<^verbatim>\<open>toString\<close> it inherits the one of
  \<^verbatim>\<open>Object.prototype\<close> and prints as \<^verbatim>\<open>[object Object]\<close>; with one, whatever its
  value, that property hides the inherited function, \<^verbatim>\<open>valueOf\<close> (own, so not a
  function, or inherited, which returns the object) does not help, and the conversion
  throws. An array prints its elements joined by commas, with nothing for an element that
  is \<^verbatim>\<open>null\<close> or \<^verbatim>\<open>undefined\<close>, and throws as soon as an element does.
\<close>

definition cannot_convert :: js_error where
  "cannot_convert =
     \<lparr>name = ''TypeError'', message = ''Cannot convert object to primitive value''\<rparr>"

fun join_comma :: "string list \<Rightarrow> string" where
  "join_comma [] = ''''"
| "join_comma [s] = s"
| "join_comma (s # t # ss) = s @ '','' @ join_comma (t # ss)"

fun first_error :: "(js_error + 'a) list \<Rightarrow> js_error + 'a list" where
  "first_error [] = Inr []"
| "first_error (Inl e # rs) = Inl e"
| "first_error (Inr x # rs) =
     (case first_error rs of Inl e \<Rightarrow> Inl e | Inr xs \<Rightarrow> Inr (x # xs))"

fun toString :: "jsval \<Rightarrow> js_error + string" where
  "toString JUndefined = Inr ''undefined''"
| "toString JNull = Inr ''null''"
| "toString (JBool b) = Inr (if b then ''true'' else ''false'')"
| "toString (JNum x) = Inr (show_num x)"
| "toString (JStr s) = Inr s"
| "toString (JArr xs) =
     (case first_error
             (map (\<lambda>x. if x = JUndefined \<or> x = JNull then Inr '''' else toString x) xs) of
        Inl e \<Rightarrow> Inl e
      | Inr ss \<Rightarrow> Inr (join_comma ss))"
| "toString (JObj ps) =
     (if ''toString'' \<in> fst ` set ps then Inl cannot_convert else Inr ''[object Object]'')"

fun typeof :: "jsval \<Rightarrow> string" where
  "typeof JUndefined = ''undefined''"
| "typeof JNull = ''object''"
| "typeof (JBool b) = ''boolean''"
| "typeof (JNum x) = ''number''"
| "typeof (JStr s) = ''string''"
| "typeof (JArr xs) = ''object''"
| "typeof (JObj ps) = ''object''"

text \<open>\<^verbatim>\<open>ToBoolean\<close>: what \<^verbatim>\<open>!html\<close> negates.\<close>

fun truthy :: "jsval \<Rightarrow> bool" where
  "truthy JUndefined = False"
| "truthy JNull = False"
| "truthy (JBool b) = b"
| "truthy (JNum x) = (x \<noteq> NaN \<and> x \<noteq> Fin 0)"
| "truthy (JStr s) = (s \<noteq> '''')"
| "truthy (JArr xs) = True"
| "truthy (JObj ps) = True"

subsection \<open>\<^verbatim>\<open>parseInt\<close>\<close>

text \<open>
  \<^verbatim>\<open>parseInt(v)\<close> with no radix: the argument is converted to a string, which may throw;
  leading white space is dropped, then a sign, then a \<^verbatim>\<open>0x\<close> or \<^verbatim>\<open>0X\<close> prefix, which
  selects radix 16 instead of 10; the longest run of digits of the radix is the value, and
  no digit at all gives \<^verbatim>\<open>NaN\<close>. The result is a number, so the double nearest to the
  integer that the digits spell (as V8 computes it, for any number of digits).
\<close>

definition is_space :: "char \<Rightarrow> bool" where
  "is_space c = (of_char c \<in> {9, 10, 11, 12, 13, 32, 160 :: nat})"

definition digit_val :: "nat \<Rightarrow> char \<Rightarrow> nat option" where
  "digit_val radix c =
     (let k = (of_char c :: nat);
          d = (if 48 \<le> k \<and> k \<le> 57 then Some (k - 48)
               else if 97 \<le> k \<and> k \<le> 122 then Some (k - 87)
               else if 65 \<le> k \<and> k \<le> 90 then Some (k - 55)
               else None)
      in case d of None \<Rightarrow> None | Some v \<Rightarrow> if v < radix then Some v else None)"

fun digits_value :: "nat \<Rightarrow> nat \<Rightarrow> string \<Rightarrow> nat" where
  "digits_value radix acc [] = acc"
| "digits_value radix acc (c # cs) =
     (case digit_val radix c of
        None \<Rightarrow> acc
      | Some d \<Rightarrow> digits_value radix (acc * radix + d) cs)"

definition parse_digits :: "nat \<Rightarrow> string \<Rightarrow> nat option" where
  "parse_digits radix s =
     (case s of
        [] \<Rightarrow> None
      | c # cs \<Rightarrow> (case digit_val radix c of
                     None \<Rightarrow> None
                   | Some d \<Rightarrow> Some (digits_value radix 0 s)))"

definition parseInt_string :: "string \<Rightarrow> jsnum" where
  "parseInt_string input =
     (let s = dropWhile is_space input;
          neg = (s \<noteq> [] \<and> hd s = CHR ''-'');
          s1 = (if s \<noteq> [] \<and> (hd s = CHR ''+'' \<or> hd s = CHR ''-'') then tl s else s);
          hex = (take 2 s1 = ''0x'' \<or> take 2 s1 = ''0X'');
          s2 = (if hex then drop 2 s1 else s1);
          radix = (if hex then 16 else 10)
      in case parse_digits radix s2 of
           None \<Rightarrow> NaN
         | Some m \<Rightarrow>
             (case to_double m of
                None \<Rightarrow> if neg then NegInf else PosInf
              | Some d \<Rightarrow> Fin (if neg then - int d else int d)))"

definition parseInt :: "jsval \<Rightarrow> js_error + jsnum" where
  "parseInt v = (case toString v of Inl e \<Rightarrow> Inl e | Inr s \<Rightarrow> Inr (parseInt_string s))"

subsection \<open>Objects\<close>

text \<open>
  An object is the list of its own properties, in insertion order. Reading a property
  that is not there gives \<^verbatim>\<open>undefined\<close>.
\<close>

definition get :: "props \<Rightarrow> string \<Rightarrow> jsval" where
  "get ps k = (case map_of ps k of None \<Rightarrow> JUndefined | Some v \<Rightarrow> v)"

fun set_prop :: "string \<Rightarrow> jsval \<Rightarrow> props \<Rightarrow> props" where
  "set_prop k v [] = [(k, v)]"
| "set_prop k v ((k', v') # ps) =
     (if k = k' then (k, v) # ps else (k', v') # set_prop k v ps)"

fun copy_props :: "props \<Rightarrow> props \<Rightarrow> props" where
  "copy_props target [] = target"
| "copy_props target ((k, v) # ps) = copy_props (set_prop k v target) ps"

text \<open>
  The own enumerable properties that a spread \<^verbatim>\<open>{...v}\<close> copies: those of an object;
  the indexed elements of an array and the indexed characters of a string; none for
  \<^verbatim>\<open>undefined\<close>, \<^verbatim>\<open>null\<close>, a boolean or a number.
\<close>

definition indexed :: "jsval list \<Rightarrow> props" where
  "indexed xs = map (\<lambda>i. (show_nat i, xs ! i)) [0 ..< length xs]"

fun own_props :: "jsval \<Rightarrow> props" where
  "own_props (JObj ps) = ps"
| "own_props (JArr xs) = indexed xs"
| "own_props (JStr s) = indexed (map (\<lambda>c. JStr [c]) s)"
| "own_props v = []"

text \<open>\<^verbatim>\<open>{ ...a, ...b }\<close>, where \<open>a\<close> is an object with the properties \<open>ps\<close>.\<close>

definition spread :: "props \<Rightarrow> jsval \<Rightarrow> props" where
  "spread ps b = copy_props (copy_props [] ps) (own_props b)"

text \<open>
  \<^verbatim>\<open>Array.prototype.includes\<close> compares with SameValueZero, which on the strings,
  numbers, booleans, \<^verbatim>\<open>null\<close> and \<^verbatim>\<open>undefined\<close> of the model is equality. An array
  of strings never includes an object or an array.
\<close>

definition array_includes :: "jsval list \<Rightarrow> jsval \<Rightarrow> bool" where
  "array_includes xs v = (v \<in> set xs)"

section \<open>The rendering engine, as the handler sees it\<close>

text \<open>
  Puppeteer and the browser behind it are outside the repository. The model records each
  call the handler makes on them and takes what the call does from an \<open>engine\<close>: whether
  \<^verbatim>\<open>newPage\<close> rejects, whether \<^verbatim>\<open>setViewport\<close> rejects for the size it is given, how
  the content loads, whether \<^verbatim>\<open>waitForTimeout\<close> rejects, what \<^verbatim>\<open>screenshot\<close> returns
  for the options it is given, and whether \<^verbatim>\<open>close\<close> rejects. One record stands for
  the browser and for the page it hands out: a run of the handler asks for one page.
\<close>

type_synonym byte = "8 word"

record screenshotOptions =
  type :: jsval
  fullPage :: jsval
  quality :: "jsnum option"

datatype load = Loads nat | Fails js_error | Never

record engine =
  newPage_result :: "js_error option"
  setViewport_result :: "jsnum \<Rightarrow> jsnum \<Rightarrow> js_error option"
  content_load :: "jsval \<Rightarrow> load"
  waitForTimeout_result :: "nat \<Rightarrow> js_error option"
  screenshot_result :: "screenshotOptions \<Rightarrow> js_error + byte list"
  close_result :: "js_error option"

definition timeout_error :: "nat \<Rightarrow> js_error" where
  "timeout_error ms =
     \<lparr>name = ''TimeoutError'',
      message = ''Navigation timeout of '' @ show_nat ms @ '' ms exceeded''\<rparr>"

text \<open>
  \<^verbatim>\<open>page.setContent(html, {waitUntil, timeout})\<close> resolves when the content has loaded
  within \<open>timeout\<close> milliseconds and rejects with a \<^verbatim>\<open>TimeoutError\<close> when it has not;
  a timeout of 0 switches the bound off. \<open>Loads ms\<close> is a load that takes \<open>ms\<close>
  milliseconds to reach the awaited events, \<open>Never\<close> one that does not reach them.
\<close>

definition setContent :: "engine \<Rightarrow> jsval \<Rightarrow> nat \<Rightarrow> js_error option" where
  "setContent page html timeout =
     (case content_load page html of
        Fails e \<Rightarrow> Some e
      | Loads ms \<Rightarrow> if timeout = 0 \<or> ms \<le> timeout then None else Some (timeout_error timeout)
      | Never \<Rightarrow> Some (timeout_error timeout))"

section \<open>The response and the trace of a request\<close>

datatype body = Json props | Buffer "byte list"

record response =
  status :: nat
  headers :: props
  body :: body

datatype call =
    NewPage
  | SetViewport jsnum jsnum
  | SetContent jsval "string list" nat
  | WaitForTimeout nat
  | Screenshot screenshotOptions
  | PageClose
  | Send response

text \<open>
  What one run of the handler does: the calls on the engine and the response written, in
  the order they happen, and the error that leaves the handler uncaught, if any.
\<close>

record outcome =
  calls :: "call list"
  uncaught :: "js_error option"

fun is_Send :: "call \<Rightarrow> bool" where
  "is_Send (Send r) = True"
| "is_Send c = False"

section \<open>The handler of \<^verbatim>\<open>POST /convert\<close>\<close>

text \<open>
  The parsed body: \<^verbatim>\<open>req.body.html\<close> and \<^verbatim>\<open>req.body.options\<close>, each \<^verbatim>\<open>undefined\<close>
  when the body has no such property.
\<close>

record request_body =
  html :: jsval
  options :: jsval

definition defaultOptions :: props where
  "defaultOptions =
     [(''width'', JNum (Fin 1920)),
      (''height'', JNum (Fin 1080)),
      (''fullPage'', JBool True),
      (''quality'', JNum (Fin 100)),
      (''type'', JStr ''png'')]"

text \<open>
  \<^verbatim>\<open>const { html, options = {} } = req.body\<close> puts the empty object in the place of
  \<^verbatim>\<open>options\<close> only when the property is \<^verbatim>\<open>undefined\<close>;
  \<^verbatim>\<open>config = { ...defaultOptions, ...options }\<close>.
\<close>

definition config_of :: "jsval \<Rightarrow> props" where
  "config_of opts = spread defaultOptions (if opts = JUndefined then JObj [] else opts)"

text \<open>
  The options of the capture. \<^verbatim>\<open>parseInt(config.quality)\<close> is evaluated for type
  \<^verbatim>\<open>jpeg\<close> only, and what it throws is thrown before the capture is called.
\<close>

definition screenshot_options :: "props \<Rightarrow> js_error + screenshotOptions" where
  "screenshot_options config =
     (if get config ''type'' = JStr ''jpeg''
      then (case parseInt (get config ''quality'') of
              Inl e \<Rightarrow> Inl e
            | Inr q \<Rightarrow>
                Inr \<lparr>type = get config ''type'', fullPage = get config ''fullPage'',
                     quality = Some q\<rparr>)
      else Inr \<lparr>type = get config ''type'', fullPage = get config ''fullPage'',
                quality = None\<rparr>)"

text \<open>
  The response of a conversion that succeeded, \<open>extension\<close> being the string that the
  template \<^verbatim>\<open>`converted.${config.type}`\<close> makes of the type. \<^verbatim>\<open>res.send\<close> without a
  call of \<^verbatim>\<open>res.status\<close> answers 200.
\<close>

definition image_response :: "props \<Rightarrow> string \<Rightarrow> byte list \<Rightarrow> response" where
  \<open>image_response config extension screenshot =
     (let mimeType = (if get config ''type'' = JStr ''png'' then ''image/png'' else ''image/jpeg'');
          filename = ''converted.'' @ extension
      in \<lparr>status = 200,
          headers =
            [(''Content-Type'', JStr mimeType),
             (''Content-Disposition'', JStr (''attachment; filename="'' @ filename @ ''"'')),
             (''Content-Length'', JNum (Fin (int (length screenshot))))],
          body = Buffer screenshot\<rparr>)\<close>

text \<open>
  The body of the inner \<^verbatim>\<open>try\<close>: the calls made on the page and, when a step throws
  or a call rejects, the error thrown, after which nothing else of the block runs. The
  arguments of a call are evaluated before the call: a \<^verbatim>\<open>parseInt\<close> that throws for the
  width or the height leaves \<^verbatim>\<open>setViewport\<close> uncalled, and one that throws for the
  quality leaves \<^verbatim>\<open>screenshot\<close> uncalled.
\<close>

definition render :: "engine \<Rightarrow> jsval \<Rightarrow> props \<Rightarrow> call list \<times> js_error option" where
  "render page content config =
     (case parseInt (get config ''width'') of
        Inl e \<Rightarrow> ([], Some e)
      | Inr width \<Rightarrow>
     (case parseInt (get config ''height'') of
        Inl e \<Rightarrow> ([], Some e)
      | Inr height \<Rightarrow>
     (let viewport = [SetViewport width height]
      in case setViewport_result page width height of
           Some e \<Rightarrow> (viewport, Some e)
         | None \<Rightarrow>
     (let loaded = viewport @ [SetContent content [''networkidle0'', ''domcontentloaded''] 30000]
      in case setContent page content 30000 of
           Some e \<Rightarrow> (loaded, Some e)
         | None \<Rightarrow>
     (let waited = loaded @ [WaitForTimeout 1000]
      in case waitForTimeout_result page 1000 of
           Some e \<Rightarrow> (waited, Some e)
         | None \<Rightarrow>
     (case screenshot_options config of
        Inl e \<Rightarrow> (waited, Some e)
      | Inr screenshotOptions \<Rightarrow>
     (let captured = waited @ [Screenshot screenshotOptions]
      in case screenshot_result page screenshotOptions of
           Inl e \<Rightarrow> (captured, Some e)
         | Inr screenshot \<Rightarrow>
     (case toString (get config ''type'') of
        Inl e \<Rightarrow> (captured, Some e)
      | Inr extension \<Rightarrow>
          (captured @ [Send (image_response config extension screenshot)], None)))))))))"

text \<open>
  \<^verbatim>\<open>try { ... } finally { await page.close() }\<close>: the page is closed whatever the block
  did, and an error thrown by \<^verbatim>\<open>close\<close> takes the place of the block's own.
\<close>

definition with_page :: "engine \<Rightarrow> jsval \<Rightarrow> props \<Rightarrow> call list \<times> js_error option" where
  "with_page page content config =
     (case render page content config of
        (cs, thrown) \<Rightarrow>
          (cs @ [PageClose],
           case close_result page of Some e \<Rightarrow> Some e | None \<Rightarrow> thrown))"

definition error_response :: "js_error \<Rightarrow> response" where
  "error_response error =
     (if name error = ''TimeoutError''
      then \<lparr>status = 408, headers = [],
            body = Json [(''error'', JStr ''Request timeout. HTML content took too long to load.'')]\<rparr>
      else \<lparr>status = 500, headers = [],
            body = Json [(''error'', JStr ''Internal server error during conversion''),
                         (''message'', JStr (message error))]\<rparr>)"

definition headers_sent_error :: js_error where
  "headers_sent_error =
     \<lparr>name = ''Error'', message = ''Cannot set headers after they are sent to the client''\<rparr>"

text \<open>
  The outer \<^verbatim>\<open>catch\<close>, entered with the calls made so far and the error caught. Once
  a response has been sent, Express cannot write a second one: \<^verbatim>\<open>res.json\<close> throws
  inside the \<^verbatim>\<open>catch\<close> block, where nothing catches it.
\<close>

definition catch_error :: "call list \<Rightarrow> js_error \<Rightarrow> outcome" where
  "catch_error cs error =
     (if list_ex is_Send cs
      then \<lparr>calls = cs, uncaught = Some headers_sent_error\<rparr>
      else \<lparr>calls = cs @ [Send (error_response error)], uncaught = None\<rparr>)"

text \<open>
  Reading \<^verbatim>\<open>browser.newPage\<close> while \<^verbatim>\<open>browser\<close> is \<^verbatim>\<open>undefined\<close> throws a
  \<^verbatim>\<open>TypeError\<close> (the message is the one of V8).
\<close>

definition undefined_browser_error :: js_error where
  "undefined_browser_error =
     \<lparr>name = ''TypeError'',
      message = ''Cannot read properties of undefined (reading 'newPage')''\<rparr>"

definition html_required :: "jsval \<Rightarrow> response" where
  "html_required content =
     \<lparr>status = 400, headers = [],
      body = Json [(''error'', JStr ''HTML content is required''),
                   (''received'', JStr (typeof content))]\<rparr>"

definition invalid_type :: response where
  \<open>invalid_type =
     \<lparr>status = 400, headers = [],
      body = Json [(''error'', JStr ''Invalid image type. Use "png" or "jpeg"'')]\<rparr>\<close>

text \<open>
  The handler, given the value of the global \<^verbatim>\<open>browser\<close> when the request arrives
  (\<open>None\<close> while it is \<^verbatim>\<open>undefined\<close>) and the parsed body.
\<close>

definition convert :: "engine option \<Rightarrow> request_body \<Rightarrow> outcome" where
  "convert browser req =
     (if \<not> truthy (html req)
      then \<lparr>calls = [Send (html_required (html req))], uncaught = None\<rparr>
      else
        (let config = config_of (options req)
         in if \<not> array_includes [JStr ''png'', JStr ''jpeg''] (get config ''type'')
            then \<lparr>calls = [Send invalid_type], uncaught = None\<rparr>
            else
              (case browser of
                 None \<Rightarrow> catch_error [] undefined_browser_error
               | Some page \<Rightarrow>
                   (case newPage_result page of
                      Some e \<Rightarrow> catch_error [NewPage] e
                    | None \<Rightarrow>
                        (case with_page page (html req) config of
                           (cs, None) \<Rightarrow> \<lparr>calls = NewPage # cs, uncaught = None\<rparr>
                         | (cs, Some e) \<Rightarrow> catch_error (NewPage # cs) e)))))"

section \<open>The life of the process\<close>

text \<open>
  The global \<^verbatim>\<open>browser\<close> is \<^verbatim>\<open>undefined\<close> until \<^verbatim>\<open>initBrowser\<close> has launched the
  engine; a launch that fails is logged and leaves the variable as it was. The handlers
  of \<^verbatim>\<open>SIGINT\<close> and \<^verbatim>\<open>SIGTERM\<close> close the engine when the variable is set, which
  leaves the variable set, and then exit; between the call of \<^verbatim>\<open>browser.close()\<close> and
  the exit the event loop still serves requests.
\<close>

record server =
  browser :: "engine option"
  engine_closed :: bool
  exited :: bool

definition startup :: server where
  "startup = \<lparr>browser = None, engine_closed = False, exited = False\<rparr>"

definition initBrowser :: "js_error + engine \<Rightarrow> server \<Rightarrow> server" where
  "initBrowser launch s = (case launch of Inr b \<Rightarrow> s\<lparr>browser := Some b\<rparr> | Inl error \<Rightarrow> s)"

definition signal_close :: "server \<Rightarrow> server" where
  "signal_close s = (if browser s \<noteq> None then s\<lparr>engine_closed := True\<rparr> else s)"

definition signal_exit :: "server \<Rightarrow> server" where
  "signal_exit s = s\<lparr>exited := True\<rparr>"

text \<open>A request is served as long as the process has not exited.\<close>

definition serve :: "server \<Rightarrow> request_body \<Rightarrow> outcome option" where
  "serve s req = (if exited s then None else Some (convert (browser s) req))"

section \<open>Notions of the specification\<close>

text \<open>
  A surface has been created when \<^verbatim>\<open>newPage\<close> was called and resolved.
\<close>

definition surface_created :: "engine option \<Rightarrow> call list \<Rightarrow> bool" where
  "surface_created br cs =
     (case br of None \<Rightarrow> False | Some b \<Rightarrow> NewPage \<in> set cs \<and> newPage_result b = None)"

text \<open>The engine handle is unavailable: never launched, or launched and shut down.\<close>

definition unavailable :: "server \<Rightarrow> bool" where
  "unavailable s = (browser s = None \<or> engine_closed s)"

text \<open>A response names a value when a string of its JSON body contains it.\<close>

fun contains :: "string \<Rightarrow> string \<Rightarrow> bool" where
  "contains [] sub = (sub = [])"
| "contains (c # cs) sub = (take (length sub) (c # cs) = sub \<or> contains cs sub)"

definition names_value :: "response \<Rightarrow> string \<Rightarrow> bool" where
  "names_value r v =
     (case body r of
        Json ps \<Rightarrow> list_ex (\<lambda>p. case snd p of JStr s \<Rightarrow> contains s v | _ \<Rightarrow> False) ps
      | Buffer bs \<Rightarrow> False)"

text \<open>The calls made before the first response is written.\<close>

definition before_response :: "call list \<Rightarrow> call list" where
  "before_response cs = takeWhile (\<lambda>c. \<not> is_Send c) cs"

text \<open>
  Test doubles of the engine: one on which every call succeeds, the content loading in
  \<open>ms\<close> milliseconds and the capture returning \<open>shot\<close>; and the error a page gives once
  its target is gone.
\<close>

definition engine_double :: "nat \<Rightarrow> byte list \<Rightarrow> engine" where
  "engine_double ms shot =
     \<lparr>newPage_result = None,
      setViewport_result = (\<lambda>w h. None),
      content_load = (\<lambda>c. Loads ms),
      waitForTimeout_result = (\<lambda>t. None),
      screenshot_result = (\<lambda>opts. Inr shot),
      close_result = None\<rparr>"

definition target_closed :: js_error where
  "target_closed = \<lparr>name = ''TargetCloseError'', message = ''Protocol error: Target closed''\<rparr>"

definition invalid_parameters :: js_error where
  "invalid_parameters =
     \<lparr>name = ''ProtocolError'', message = ''Invalid parameters: integer value expected''\<rparr>"

text \<open>An engine that rejects a viewport with a \<^verbatim>\<open>NaN\<close> side and accepts all else.\<close>

definition engine_rejecting_nan :: engine where
  "engine_rejecting_nan =
     (engine_double 120 [])
       \<lparr>setViewport_result :=
          (\<lambda>w h. if w = NaN \<or> h = NaN then Some invalid_parameters else None)\<rparr>"

definition hello :: jsval where
  "hello = JStr ''<html><body><h1>Hello World</h1></body></html>''"

section \<open>Rounding to a double\<close>

lemma bit_length_le: "n < 2 ^ k \<Longrightarrow> bit_length n \<le> k"
proof (induction k arbitrary: n)
  case 0
  then show ?case by (subst bit_length.simps) simp
next
  case (Suc k)
  from Suc.prems have "n div 2 < 2 ^ k"
    by simp
  from Suc.IH [OF this] show ?case
    by (subst bit_length.simps) simp
qed

lemma bit_length_bounds:
  "0 < n \<Longrightarrow> 2 ^ (bit_length n - 1) \<le> n \<and> n < 2 ^ bit_length n"
proof (induction n rule: bit_length.induct)
  case (1 n)
  show ?case
  proof (cases "n div 2 = 0")
    case True
    with "1.prems" have "n = 1"
      by (simp add: div_eq_0_iff)
    moreover have "bit_length (Suc 0) = Suc 0"
      by (simp add: bit_length.simps [of "Suc 0"] bit_length.simps [of 0])
    ultimately show ?thesis
      by simp
  next
    case False
    then have pos: "0 < n div 2" by simp
    from "1.prems" have nz: "n \<noteq> 0" by simp
    from "1.IH" [OF nz pos]
    have ih: "2 ^ (bit_length (n div 2) - 1) \<le> n div 2" "n div 2 < 2 ^ bit_length (n div 2)"
      by simp_all
    have len: "bit_length n = Suc (bit_length (n div 2))"
      using nz by (subst bit_length.simps) simp
    from pos have "0 < bit_length (n div 2)"
      by (subst bit_length.simps) simp
    then obtain j where j: "bit_length (n div 2) = Suc j"
      by (cases "bit_length (n div 2)") simp_all
    from ih j have "2 * 2 ^ j \<le> n" "n < 2 * 2 ^ Suc j"
      by (simp_all; linarith)+
    with len j show ?thesis
      by simp
  qed
qed

lemma to_double_small: "n < 2 ^ 53 \<Longrightarrow> to_double n = Some n"
  using bit_length_le [of n 53] by (simp add: to_double_def)

lemma to_double_lower:
  assumes "to_double n = Some m" and "53 < bit_length n"
  shows "(n div 2 ^ (bit_length n - 53)) * 2 ^ (bit_length n - 53) \<le> m"
  using assms by (auto simp: to_double_def Let_def split: if_splits)

lemma to_double_ge_1e21:
  assumes big: "10 ^ 21 \<le> n" and d: "to_double n = Some m"
  shows "10 ^ 21 \<le> m"
proof -
  from big have pos: "0 < n"
    by (metis less_le_trans zero_less_numeral zero_less_power)
  note bounds = bit_length_bounds [OF pos]
  have "(2::nat) ^ 69 < 10 ^ 21" by simp
  with big bounds have "(2::nat) ^ 69 < 2 ^ bit_length n"
    by linarith
  then have "69 < bit_length n"
    by (rule power_less_imp_less_exp [rotated]) simp
  then have len: "70 \<le> bit_length n"
    by simp
  then have long: "53 < bit_length n" by simp
  let ?e = "bit_length n - 53"
  note lower = to_double_lower [OF d long]
  show ?thesis
  proof (cases "bit_length n = 70")
    case True
    then have e: "?e = 17" by simp
    have "(10::nat) ^ 21 = (10 ^ 21 div 2 ^ 17) * 2 ^ 17"
      by simp
    also have "\<dots> \<le> (n div 2 ^ 17) * 2 ^ 17"
      using big by (intro mult_right_mono div_le_mono) simp_all
    finally show ?thesis
      using lower e by simp
  next
    case False
    with len have len': "71 \<le> bit_length n" by simp
    define j where "j = bit_length n - 54"
    with len' have j: "bit_length n = 53 + Suc j" and j17: "17 \<le> j"
      by simp_all
    from bounds j have "2 ^ (52 + Suc j) \<le> n"
      by simp
    then have "2 ^ 52 * 2 ^ Suc j \<le> n"
      by (simp add: power_add)
    then have "2 ^ 52 \<le> n div 2 ^ Suc j"
      by (simp add: less_eq_div_iff_mult_less_eq)
    then have "2 ^ 52 * 2 ^ Suc j \<le> (n div 2 ^ Suc j) * 2 ^ Suc j"
      by (rule mult_right_mono) simp
    moreover have "(10::nat) ^ 21 \<le> 2 ^ 52 * 2 ^ Suc 17"
      by simp
    moreover have "(2::nat) ^ 52 * 2 ^ Suc 17 \<le> 2 ^ 52 * 2 ^ Suc j"
      using j17 by (intro mult_left_mono power_increasing) simp_all
    ultimately have reach: "10 ^ 21 \<le> (n div 2 ^ Suc j) * 2 ^ Suc j"
      by linarith
    from j have "bit_length n - 53 = Suc j"
      by simp
    with lower have "(n div 2 ^ Suc j) * 2 ^ Suc j \<le> m"
      by (simp only:)
    with reach show ?thesis
      by (rule order_trans)
  qed
qed

section \<open>The digits printed\<close>

lemma digit_candidates_sound:
  "(s, e) \<in> set (digit_candidates x k) \<Longrightarrow> to_double (s * 10 ^ e) = Some x \<and> 0 < s"
  by (auto simp: digit_candidates_def Let_def intro: Suc_le_lessD less_le_trans [rotated])

lemma first_candidates_sound:
  assumes "to_double x = Some x" and "0 < x"
  shows "(s, e) \<in> set (first_candidates x ks) \<Longrightarrow> to_double (s * 10 ^ e) = Some x \<and> 0 < s"
  using assms by (induction ks) (auto dest: digit_candidates_sound split: if_splits)

lemma first_candidates_nonempty: "first_candidates x ks \<noteq> []"
  by (induction ks) simp_all

lemma closest_member: "cs \<noteq> [] \<Longrightarrow> closest x cs \<in> set cs"
  by (induction x cs rule: closest.induct) (auto simp: Let_def)

lemma shortest_sound:
  assumes "to_double x = Some x" and "0 < x" and "shortest x = (s, e)"
  shows "to_double (s * 10 ^ e) = Some x" and "0 < s"
proof -
  let ?cs = "first_candidates x [1 ..< Suc (length (show_nat x))]"
  from closest_member [OF first_candidates_nonempty, of x x "[1 ..< Suc (length (show_nat x))]"]
    assms(3)
  have "(s, e) \<in> set ?cs"
    by (simp add: shortest_def)
  from first_candidates_sound [OF assms(1,2) this]
  show "to_double (s * 10 ^ e) = Some x" and "0 < s"
    by simp_all
qed

section \<open>Parsing what was printed\<close>

lemma digit_char_digit: "d < 10 \<Longrightarrow> digit_char d \<in> set ''0123456789''"
  unfolding digit_char_def
  by (auto simp: less_Suc_eq numeral_eq_Suc nth_Cons')

lemma digit_val_digit_char: "d < 10 \<Longrightarrow> digit_val 10 (digit_char d) = Some d"
  unfolding digit_val_def digit_char_def
  by (auto simp: less_Suc_eq numeral_eq_Suc nth_Cons')

lemma show_nat_digits: "set (show_nat n) \<subseteq> set ''0123456789''"
proof (induction n rule: show_nat.induct)
  case (1 n)
  show ?case
  proof (cases "n < 10")
    case True
    with digit_char_digit [of n] show ?thesis
      by (subst show_nat.simps) simp
  next
    case False
    have "n mod 10 < 10" by simp
    from digit_char_digit [OF this] "1.IH" [OF False] False show ?thesis
      by (subst show_nat.simps) simp
  qed
qed

lemma show_nat_nonempty: "show_nat n \<noteq> []"
  by (subst show_nat.simps) simp

lemma show_nat_length: "0 < n \<Longrightarrow> 10 ^ (length (show_nat n) - 1) \<le> n"
proof (induction n rule: show_nat.induct)
  case (1 n)
  show ?case
  proof (cases "n < 10")
    case True
    with "1.prems" show ?thesis
      by (subst show_nat.simps) simp
  next
    case False
    then have pos: "0 < n div 10" by simp
    from show_nat_nonempty [of "n div 10"] obtain j where j: "length (show_nat (n div 10)) = Suc j"
      by (cases "show_nat (n div 10)") simp_all
    from "1.IH" [OF False pos] j have "10 ^ j \<le> n div 10"
      by simp
    then have "10 * 10 ^ j \<le> n"
      by simp
    moreover have "length (show_nat n) = Suc (Suc j)"
      using False j by (subst show_nat.simps) simp
    ultimately show ?thesis
      by simp
  qed
qed

lemma digits_value_show_nat:
  "digits_value 10 acc (show_nat n @ cs) =
     digits_value 10 (acc * 10 ^ length (show_nat n) + n) cs"
proof (induction n arbitrary: acc cs rule: show_nat.induct)
  case (1 n)
  show ?case
  proof (cases "n < 10")
    case True
    then have "show_nat n = [digit_char n]"
      by (subst show_nat.simps) simp
    with True show ?thesis
      by (simp add: digit_val_digit_char)
  next
    case False
    then have unfold: "show_nat n = show_nat (n div 10) @ [digit_char (n mod 10)]"
      by (subst show_nat.simps) simp
    have "digits_value 10 acc (show_nat n @ cs) =
            digits_value 10 acc (show_nat (n div 10) @ digit_char (n mod 10) # cs)"
      by (simp add: unfold)
    also have "\<dots> = digits_value 10 (acc * 10 ^ length (show_nat (n div 10)) + n div 10)
                        (digit_char (n mod 10) # cs)"
      by (rule "1.IH" [OF False])
    also have "\<dots> = digits_value 10
        ((acc * 10 ^ length (show_nat (n div 10)) + n div 10) * 10 + n mod 10) cs"
      by (simp add: digit_val_digit_char)
    also have "(acc * 10 ^ length (show_nat (n div 10)) + n div 10) * 10 + n mod 10 =
        acc * 10 ^ length (show_nat n) + n"
      by (simp add: unfold algebra_simps)
    finally show ?thesis .
  qed
qed

lemma digits_value_zeros: "digits_value 10 acc (replicate e CHR ''0'') = acc * 10 ^ e"
  by (induction e arbitrary: acc) (simp_all add: digit_val_def)

lemma digit_val_of_digit: "c \<in> set ''0123456789'' \<Longrightarrow> digit_val 10 c \<noteq> None"
  by (auto simp: digit_val_def)

lemma parse_digits_padded:
  "parse_digits 10 (show_nat n @ replicate e CHR ''0'') = Some (n * 10 ^ e)"
proof -
  obtain c cs where s: "show_nat n = c # cs"
    using show_nat_nonempty [of n] by (cases "show_nat n") simp_all
  with show_nat_digits [of n] have "c \<in> set ''0123456789''"
    by auto
  then have "digit_val 10 c \<noteq> None"
    by (rule digit_val_of_digit)
  moreover have "digits_value 10 0 (show_nat n @ replicate e CHR ''0'') = n * 10 ^ e"
    by (simp add: digits_value_show_nat digits_value_zeros)
  ultimately show ?thesis
    using s by (auto simp: parse_digits_def)
qed

lemma digits_plain:
  assumes "set s \<subseteq> set ''0123456789''" and "s \<noteq> []"
  shows "dropWhile is_space s = s" and "hd s \<noteq> CHR ''+''" and "hd s \<noteq> CHR ''-''"
    and "take 2 s \<noteq> ''0x''" and "take 2 s \<noteq> ''0X''"
proof -
  from assms obtain c cs where s: "s = c # cs"
    by (cases s) simp_all
  with assms have c: "c \<in> set ''0123456789''" and cs: "set cs \<subseteq> set ''0123456789''"
    by auto
  from c have "\<not> is_space c"
    by (auto simp: is_space_def)
  with s show "dropWhile is_space s = s"
    by simp
  from c s show "hd s \<noteq> CHR ''+''" and "hd s \<noteq> CHR ''-''"
    by auto
  show "take 2 s \<noteq> ''0x''" and "take 2 s \<noteq> ''0X''"
    using s cs by (cases cs; auto)+
qed

lemma padded_digits:
  "set (show_nat n @ replicate e CHR ''0'') \<subseteq> set ''0123456789''"
  "show_nat n @ replicate e CHR ''0'' \<noteq> []"
  using show_nat_digits [of n] show_nat_nonempty [of n] by auto

lemma parseInt_string_padded:
  "parseInt_string (show_nat n @ replicate e CHR ''0'') =
     (case to_double (n * 10 ^ e) of None \<Rightarrow> PosInf | Some d \<Rightarrow> Fin (int d))"
  using digits_plain [OF padded_digits, of n e] padded_digits(2) [of n e]
  by (simp add: parseInt_string_def parse_digits_padded del: append_is_Nil_conv
        split: option.splits)

lemma parseInt_string_minus_padded:
  "parseInt_string (CHR ''-'' # show_nat n @ replicate e CHR ''0'') =
     (case to_double (n * 10 ^ e) of None \<Rightarrow> NegInf | Some d \<Rightarrow> Fin (- int d))"
  using digits_plain [OF padded_digits, of n e]
  by (simp add: parseInt_string_def parse_digits_padded is_space_def del: append_is_Nil_conv
        split: option.splits)

lemma show_positive_plain:
  assumes d: "to_double x = Some x" and pos: "0 < x" and small: "x < 10 ^ 21"
  obtains s e where "show_positive x = show_nat s @ replicate e CHR ''0''"
    and "to_double (s * 10 ^ e) = Some x"
proof -
  obtain s e where se: "shortest x = (s, e)"
    by (cases "shortest x")
  note sound = shortest_sound [OF d pos se]
  have "length (show_nat s) + e \<le> 21"
  proof (rule ccontr)
    assume "\<not> length (show_nat s) + e \<le> 21"
    then have long: "21 \<le> (length (show_nat s) - 1) + e"
      by simp
    have "(10::nat) ^ 21 \<le> 10 ^ ((length (show_nat s) - 1) + e)"
      using long by (intro power_increasing) simp_all
    also have "\<dots> = 10 ^ (length (show_nat s) - 1) * 10 ^ e"
      by (simp add: power_add)
    also have "\<dots> \<le> s * 10 ^ e"
      using show_nat_length [OF sound(2)] by (rule mult_right_mono) simp
    finally have "10 ^ 21 \<le> x"
      using sound(1) by (rule to_double_ge_1e21)
    with small show False
      by simp
  qed
  then have "show_positive x = show_nat s @ replicate e CHR ''0''"
    by (simp add: show_positive_def se)
  then show ?thesis
    using sound(1) by (rule that)
qed

lemma parseInt_string_show_int:
  assumes "is_double q" and "\<bar>q\<bar> < 10 ^ 21"
  shows "parseInt_string (show_int q) = Fin q"
proof (cases "q = 0")
  case True
  have "parseInt_string ''0'' = Fin 0"
    by (simp add: parseInt_string_def parse_digits_def digit_val_def is_space_def
          to_double_small)
  with True show ?thesis
    by (simp add: show_int_def)
next
  case False
  let ?x = "nat \<bar>q\<bar>"
  from assms False have d: "to_double ?x = Some ?x" and pos: "0 < ?x" and small: "?x < 10 ^ 21"
    by (simp_all add: is_double_def nat_less_iff)
  from show_positive_plain [OF d pos small] obtain s e
    where str: "show_positive ?x = show_nat s @ replicate e CHR ''0''"
      and round: "to_double (s * 10 ^ e) = Some ?x"
    by blast
  show ?thesis
  proof (cases "q < 0")
    case True
    with False str round show ?thesis
      by (simp add: show_int_def parseInt_string_minus_padded)
  next
    case False
    with \<open>q \<noteq> 0\<close> str round show ?thesis
      by (simp add: show_int_def parseInt_string_padded)
  qed
qed

lemma parseInt_string_digits:
  "parseInt_string (show_nat n) =
     (case to_double n of None \<Rightarrow> PosInf | Some d \<Rightarrow> Fin (int d))"
  using parseInt_string_padded [of n 0] by simp

lemma is_double_small: "\<bar>q\<bar> < 2 ^ 53 \<Longrightarrow> is_double q"
  by (simp add: is_double_def to_double_small nat_less_iff)

lemma parseInt_JStr: "parseInt (JStr s) = Inr (parseInt_string s)"
  by (simp add: parseInt_def)

lemma parseInt_number:
  "is_double q \<Longrightarrow> \<bar>q\<bar> < 10 ^ 21 \<Longrightarrow> parseInt (JNum (Fin q)) = Inr (Fin q)"
  by (simp add: parseInt_def show_num_def parseInt_string_show_int)

lemma parseInt_safe: "\<bar>q\<bar> < 2 ^ 53 \<Longrightarrow> parseInt (JNum (Fin q)) = Inr (Fin q)"
  by (rule parseInt_number) (simp_all add: is_double_small)

lemma parseInt_digits:
  "parseInt (JStr (show_nat n)) =
     Inr (case to_double n of None \<Rightarrow> PosInf | Some d \<Rightarrow> Fin (int d))"
  by (simp add: parseInt_JStr parseInt_string_digits)

section \<open>Printing and parsing at particular values\<close>

text \<open>
  The printing and the parsing evaluated where they change: an integer below \<open>10\<^sup>2\<^sup>1\<close> is
  printed in full, one from \<open>10\<^sup>2\<^sup>1\<close> on with the fewest digits that still name its double,
  a digit string beyond \<open>2\<^sup>5\<^sup>3\<close> is read as the nearest double, and a value whose
  \<^verbatim>\<open>toString\<close> is not callable cannot be read at all.
\<close>

lemma digits_150: "length (show_nat 150) = 3"
  by (simp add: show_nat.simps digit_char_def)

lemma shortest_150: "shortest 150 = (15, 1)"
  by (simp add: shortest_def digits_150 digit_candidates_def to_double_small distance_def Let_def
        upt_rec)

lemma show_int_150: "show_int 150 = ''150''"
  by (simp add: show_int_def show_positive_def shortest_150 show_nat.simps digit_char_def)

lemma bit_length_1e21: "bit_length 1000000000000000000000 = 70"
  by (simp add: bit_length.simps)

lemma digits_1e21: "length (show_nat 1000000000000000000000) = 22"
  by (simp add: show_nat.simps digit_char_def)

lemma shortest_1e21: "shortest 1000000000000000000000 = (1, 21)"
  by (simp add: shortest_def digits_1e21 digit_candidates_def to_double_def bit_length.simps
        distance_def Let_def upt_rec)

lemma show_int_1e21: "show_int 1000000000000000000000 = ''1e+21''"
  by (simp add: show_int_def show_positive_def shortest_1e21 show_nat.simps digit_char_def)

lemma parseInt_1e21: "parseInt (JNum (Fin 1000000000000000000000)) = Inr (Fin 1)"
  by (simp add: parseInt_def show_num_def show_int_1e21 parseInt_string_def parse_digits_def
        digit_val_def is_space_def to_double_small)

lemma is_double_1e21: "is_double 1000000000000000000000"
  by (simp add: is_double_def to_double_def bit_length_1e21)

lemma digits_1e23: "length (show_nat 99999999999999991611392) = 23"
  by (simp add: show_nat.simps digit_char_def)

lemma shortest_1e23: "shortest 99999999999999991611392 = (1, 23)"
  by (simp add: shortest_def digits_1e23 digit_candidates_def to_double_def bit_length.simps
        distance_def Let_def upt_rec)

lemma show_int_1e23: "show_int 99999999999999991611392 = ''1e+23''"
  by (simp add: show_int_def show_positive_def shortest_1e23 show_nat.simps digit_char_def)

lemma parseInt_beyond_safe: "parseInt (JStr ''9007199254740993'') = Inr (Fin 9007199254740992)"
  by (simp add: parseInt_JStr parseInt_string_def parse_digits_def digit_val_def is_space_def
        to_double_def bit_length.simps)

lemma parseInt_of_values:
  "parseInt (JObj [(''toString'', JNum (Fin 1))]) = Inl cannot_convert"
  "parseInt (JArr [JObj [(''toString'', JNull)]]) = Inl cannot_convert"
  "parseInt (JObj [(''a'', JNull)]) = Inr NaN"
  "parseInt (JArr [JStr ''600'']) = Inr (Fin 600)"
  "parseInt (JStr ''  12px'') = Inr (Fin 12)"
  "parseInt (JStr ''-0x1F'') = Inr (Fin (- 31))"
  by (simp_all add: parseInt_def parseInt_string_def parse_digits_def digit_val_def is_space_def
        to_double_small)

section \<open>Merging the options\<close>

lemma map_of_set_prop: "map_of (set_prop k v ps) = (map_of ps)(k \<mapsto> v)"
  by (induction k v ps rule: set_prop.induct) auto

lemma map_of_copy_props: "map_of (copy_props t ps) x = (map_of t ++ map_of (rev ps)) x"
  by (induction t ps rule: copy_props.induct)
     (simp_all add: map_of_set_prop map_add_def split: option.splits)

lemma map_of_rev_distinct: "distinct (map fst ps) \<Longrightarrow> map_of (rev ps) = map_of ps"
proof (induction ps)
  case Nil
  show ?case by simp
next
  case (Cons p ps)
  obtain k v where p: "p = (k, v)" by (cases p)
  from Cons.prems p have fresh: "k \<notin> fst ` set ps" and dist: "distinct (map fst ps)"
    by auto
  from fresh have none: "map_of ps k = None"
    by (simp add: map_of_eq_None_iff)
  have "map_of (rev (p # ps)) = [k \<mapsto> v] ++ map_of ps"
    using Cons.IH [OF dist] p by simp
  also have "\<dots> = map_of (p # ps)"
    using none p by (auto simp: map_add_def fun_upd_def split: option.splits)
  finally show ?case .
qed

lemma copy_defaultOptions: "copy_props [] defaultOptions = defaultOptions"
  by (simp add: defaultOptions_def)

lemma own_props_default: "own_props (if opts = JUndefined then JObj [] else opts) = own_props opts"
  by simp

lemma get_config_of:
  "get (config_of opts) k =
     (case map_of (rev (own_props opts)) k of Some v \<Rightarrow> v | None \<Rightarrow> get defaultOptions k)"
  unfolding config_of_def spread_def get_def copy_defaultOptions own_props_default
  by (simp add: map_of_copy_props map_add_def split: option.splits)

lemma config_default:
  "k \<notin> fst ` set (own_props opts) \<Longrightarrow> get (config_of opts) k = get defaultOptions k"
  by (simp add: get_config_of map_of_eq_None_iff [THEN iffD2])

lemma config_supplied:
  "distinct (map fst (own_props opts)) \<Longrightarrow> (k, v) \<in> set (own_props opts)
     \<Longrightarrow> get (config_of opts) k = v"
  by (simp add: get_config_of map_of_rev_distinct)

lemma indexed_keys: "k \<in> fst ` set (indexed xs) \<Longrightarrow> set k \<subseteq> set ''0123456789''"
proof -
  assume "k \<in> fst ` set (indexed xs)"
  then obtain i where "k = show_nat i"
    by (auto simp: indexed_def)
  with show_nat_digits [of i] show ?thesis
    by simp
qed

lemma own_props_keys:
  assumes "\<forall>ps. opts \<noteq> JObj ps" and "k \<in> fst ` set (own_props opts)"
  shows "set k \<subseteq> set ''0123456789''"
  using assms indexed_keys by (cases opts) auto

section \<open>The calls of one run\<close>

lemma status_image_response: "status (image_response cfg ext shot) = 200"
  by (simp add: image_response_def)

lemma status_error_response:
  "status (error_response e) \<noteq> 200" "status (error_response e) \<noteq> 400"
  by (simp_all add: error_response_def)

lemma render_calls:
  assumes "render page c cfg = (cs, thrown)"
  shows "NewPage \<notin> set cs" and "PageClose \<notin> set cs"
    and "Screenshot opts \<in> set cs \<Longrightarrow> screenshot_options cfg = Inr opts"
    and "Send r \<in> set cs \<Longrightarrow>
           thrown = None \<and> (\<exists>opts shot ext. screenshot_options cfg = Inr opts
                              \<and> screenshot_result page opts = Inr shot
                              \<and> toString (get cfg ''type'') = Inr ext
                              \<and> r = image_response cfg ext shot)"
    and "thrown = None \<Longrightarrow> \<exists>pre ext shot. cs = pre @ [Send (image_response cfg ext shot)]
                              \<and> \<not> list_ex is_Send pre"
    and "thrown \<noteq> None \<Longrightarrow> \<not> list_ex is_Send cs"
    and "SetViewport w h \<in> set cs \<Longrightarrow>
           parseInt (get cfg ''width'') = Inr w \<and> parseInt (get cfg ''height'') = Inr h"
  using assms
  by (auto simp: render_def Let_def split: option.splits sum.splits) blast

lemma render_viewport_first:
  assumes "render b c cfg = (cs, thrown)"
    and "parseInt (get cfg ''width'') = Inr w" and "parseInt (get cfg ''height'') = Inr h"
  shows "take 1 cs = [SetViewport w h]"
  using assms by (auto simp: render_def Let_def split: option.splits sum.splits)

lemma render_throws:
  "parseInt (get cfg ''width'') = Inl e \<Longrightarrow> render b c cfg = ([], Some e)"
  "parseInt (get cfg ''width'') = Inr w \<Longrightarrow> parseInt (get cfg ''height'') = Inl e \<Longrightarrow>
     render b c cfg = ([], Some e)"
  by (simp_all add: render_def)

lemma render_timeout:
  assumes "parseInt (get cfg ''width'') = Inr w" and "parseInt (get cfg ''height'') = Inr h"
    and "setViewport_result b w h = None" and "setContent b c 30000 = Some e"
  shows "render b c cfg =
           ([SetViewport w h, SetContent c [''networkidle0'', ''domcontentloaded''] 30000], Some e)"
  using assms by (simp add: render_def)

lemma render_captures:
  assumes "parseInt (get cfg ''width'') = Inr w" and "parseInt (get cfg ''height'') = Inr h"
    and "setViewport_result b w h = None" and "setContent b c 30000 = None"
    and "waitForTimeout_result b 1000 = None" and "screenshot_options cfg = Inr opts"
  shows "Screenshot opts \<in> set (fst (render b c cfg))"
  using assms by (simp add: render_def Let_def split: sum.splits)

lemma render_succeeds:
  assumes "parseInt (get cfg ''width'') = Inr w" and "parseInt (get cfg ''height'') = Inr h"
    and "setViewport_result b w h = None" and "setContent b c 30000 = None"
    and "waitForTimeout_result b 1000 = None" and "screenshot_options cfg = Inr opts"
    and "screenshot_result b opts = Inr shot" and "toString (get cfg ''type'') = Inr ext"
  shows "render b c cfg =
           ([SetViewport w h, SetContent c [''networkidle0'', ''domcontentloaded''] 30000,
             WaitForTimeout 1000, Screenshot opts, Send (image_response cfg ext shot)], None)"
  using assms by (simp add: render_def)

lemma convert_screenshot:
  assumes "Screenshot opts \<in> set (calls (convert br req))"
  shows "array_includes [JStr ''png'', JStr ''jpeg''] (get (config_of (options req)) ''type'')"
    and "\<exists>b. br = Some b \<and> newPage_result b = None
           \<and> Screenshot opts \<in> set (fst (render b (html req) (config_of (options req))))"
  using assms
  by (auto simp: convert_def with_page_def Let_def catch_error_def
           split: if_splits option.splits prod.splits)

lemma convert_viewport:
  assumes "SetViewport w h \<in> set (calls (convert br req))"
  shows "\<exists>b. br = Some b
           \<and> SetViewport w h \<in> set (fst (render b (html req) (config_of (options req))))"
  using assms
  by (auto simp: convert_def with_page_def Let_def catch_error_def
           split: if_splits option.splits prod.splits)

lemma convert_no_content:
  "\<not> truthy (html req) \<Longrightarrow>
     convert br req = \<lparr>calls = [Send (html_required (html req))], uncaught = None\<rparr>"
  by (simp add: convert_def)

lemma convert_invalid_type:
  "truthy (html req) \<Longrightarrow>
   \<not> array_includes [JStr ''png'', JStr ''jpeg''] (get (config_of (options req)) ''type'') \<Longrightarrow>
     convert br req = \<lparr>calls = [Send invalid_type], uncaught = None\<rparr>"
  by (simp add: convert_def)

lemma convert_no_browser:
  "truthy (html req) \<Longrightarrow>
   array_includes [JStr ''png'', JStr ''jpeg''] (get (config_of (options req)) ''type'') \<Longrightarrow>
     convert None req =
       \<lparr>calls = [Send (error_response undefined_browser_error)], uncaught = None\<rparr>"
  by (simp add: convert_def catch_error_def)

lemma convert_newPage_fails:
  "truthy (html req) \<Longrightarrow>
   array_includes [JStr ''png'', JStr ''jpeg''] (get (config_of (options req)) ''type'') \<Longrightarrow>
   newPage_result b = Some e \<Longrightarrow>
     convert (Some b) req = \<lparr>calls = [NewPage, Send (error_response e)], uncaught = None\<rparr>"
  by (simp add: convert_def catch_error_def)

lemma convert_with_surface:
  assumes "truthy (html req)"
    and "array_includes [JStr ''png'', JStr ''jpeg''] (get (config_of (options req)) ''type'')"
    and "newPage_result b = None"
    and "render b (html req) (config_of (options req)) = (cs, thrown)"
  shows "convert (Some b) req =
           (case (case close_result b of Some e \<Rightarrow> Some e | None \<Rightarrow> thrown) of
              None \<Rightarrow> \<lparr>calls = NewPage # cs @ [PageClose], uncaught = None\<rparr>
            | Some e \<Rightarrow> catch_error (NewPage # cs @ [PageClose]) e)"
  using assms by (simp add: convert_def with_page_def split: option.splits)

text \<open>The run on a page: what is called, and what is answered.\<close>

lemma calls_with_surface:
  assumes "truthy (html req)"
    and "array_includes [JStr ''png'', JStr ''jpeg''] (get (config_of (options req)) ''type'')"
    and "newPage_result b = None"
    and "render b (html req) (config_of (options req)) = (cs, thrown)"
  shows "thrown = None \<Longrightarrow> calls (convert (Some b) req) = NewPage # cs @ [PageClose]"
    and "thrown = Some e \<Longrightarrow>
           calls (convert (Some b) req) =
             NewPage # cs @ [PageClose,
               Send (error_response (case close_result b of Some e' \<Rightarrow> e' | None \<Rightarrow> e))]"
proof -
  note run = convert_with_surface [OF assms]
  show "calls (convert (Some b) req) = NewPage # cs @ [PageClose]" if "thrown = None"
  proof -
    from render_calls(5) [OF assms(4) that] have "list_ex is_Send cs"
      by auto
    with that run show ?thesis
      by (simp add: catch_error_def split: option.splits)
  qed
  show "calls (convert (Some b) req) =
          NewPage # cs @ [PageClose,
            Send (error_response (case close_result b of Some e' \<Rightarrow> e' | None \<Rightarrow> e))]"
    if "thrown = Some e"
  proof -
    from render_calls(6) [OF assms(4)] that have "\<not> list_ex is_Send cs"
      by simp
    with that run show ?thesis
      by (simp add: catch_error_def split: option.splits)
  qed
qed

lemma convert_cases:
  obtains (no_content) "\<not> truthy (html req)"
  | (invalid_type) "truthy (html req)"
      "\<not> array_includes [JStr ''png'', JStr ''jpeg''] (get (config_of (options req)) ''type'')"
  | (no_browser) "truthy (html req)"
      "array_includes [JStr ''png'', JStr ''jpeg''] (get (config_of (options req)) ''type'')"
      "br = None"
  | (no_page) b e where "truthy (html req)"
      "array_includes [JStr ''png'', JStr ''jpeg''] (get (config_of (options req)) ''type'')"
      "br = Some b" "newPage_result b = Some e"
  | (page) b cs thrown where "truthy (html req)"
      "array_includes [JStr ''png'', JStr ''jpeg''] (get (config_of (options req)) ''type'')"
      "br = Some b" "newPage_result b = None"
      "render b (html req) (config_of (options req)) = (cs, thrown)"
proof (cases "truthy (html req)")
  case False
  then show ?thesis by (rule no_content)
next
  case content: True
  show ?thesis
  proof (cases "array_includes [JStr ''png'', JStr ''jpeg''] (get (config_of (options req)) ''type'')")
    case False
    with content show ?thesis by (rule invalid_type)
  next
    case valid: True
    show ?thesis
    proof (cases br)
      case None
      with content valid show ?thesis by (rule no_browser)
    next
      case (Some b)
      show ?thesis
      proof (cases "newPage_result b")
        case None
        obtain cs thrown where "render b (html req) (config_of (options req)) = (cs, thrown)"
          by (cases "render b (html req) (config_of (options req))")
        with content valid Some None show ?thesis by (rule page)
      next
        case (Some e)
        with content valid \<open>br = Some b\<close> show ?thesis by (rule no_page)
      qed
    qed
  qed
qed

lemma before_response_error:
  "\<not> list_ex is_Send cs \<Longrightarrow>
     before_response (NewPage # cs @ [PageClose, Send r]) = NewPage # cs @ [PageClose]"
  by (simp add: before_response_def list_ex_iff takeWhile_tail)

lemma validated_not_rejected:
  assumes content: "truthy (html req)"
    and valid: "array_includes [JStr ''png'', JStr ''jpeg''] (get (config_of (options req)) ''type'')"
    and sent: "Send r \<in> set (calls (convert br req))"
  shows "status r \<noteq> 400"
proof (cases rule: convert_cases [where req = req and br = br])
  case no_content
  with content show ?thesis by simp
next
  case invalid_type
  with valid show ?thesis by simp
next
  case no_browser
  from convert_no_browser [OF content valid] no_browser(3) sent status_error_response(2)
  show ?thesis by auto
next
  case (no_page b e)
  from convert_newPage_fails [OF content valid no_page(4)] no_page(3) sent
    status_error_response(2)
  show ?thesis by auto
next
  case (page b cs thrown)
  have inner: "status r \<noteq> 400" if "Send r \<in> set cs"
    using render_calls(4) [OF page(5) that] status_image_response by auto
  show ?thesis
  proof (cases thrown)
    case None
    from calls_with_surface(1) [OF content valid page(4,5) None] page(3) sent inner
    show ?thesis by auto
  next
    case (Some e)
    from calls_with_surface(2) [OF content valid page(4,5) Some] page(3) sent inner
      status_error_response(2)
    show ?thesis by auto
  qed
qed

lemmas eval_defs =
  convert_def with_page_def render_def catch_error_def config_of_def spread_def get_def
  defaultOptions_def array_includes_def screenshot_options_def image_response_def
  error_response_def setContent_def engine_double_def hello_def
  parseInt_JStr parseInt_safe parseInt_string_def parse_digits_def digit_val_def is_space_def
  to_double_small

section \<open>Requests without content\<close>

text \<open>
  Claim C5. When \<^verbatim>\<open>html\<close> is absent or empty (or any other falsy value) the handler
  answers 400 with the body \<^verbatim>\<open>{error, received}\<close>, where \<^verbatim>\<open>received\<close> is
  \<^verbatim>\<open>typeof html\<close>, and that response is all it does: no call reaches the engine,
  whatever the state of the browser and whatever the options.
\<close>

theorem convert_without_content:
  assumes "\<not> truthy (html req)"
  shows "convert br req =
           \<lparr>calls = [Send \<lparr>status = 400, headers = [],
                            body = Json [(''error'', JStr ''HTML content is required''),
                                         (''received'', JStr (typeof (html req)))]\<rparr>],
            uncaught = None\<rparr>
         \<and> NewPage \<notin> set (calls (convert br req))"
  using assms by (simp add: convert_def html_required_def)

theorem convert_without_content_witness:
  "\<not> truthy JUndefined \<and> \<not> truthy (JStr '''')
   \<and> convert (Some (engine_double 120 [])) \<lparr>html = JUndefined, options = JUndefined\<rparr> =
       \<lparr>calls = [Send \<lparr>status = 400, headers = [],
                        body = Json [(''error'', JStr ''HTML content is required''),
                                     (''received'', JStr ''undefined'')]\<rparr>],
        uncaught = None\<rparr>
   \<and> convert None \<lparr>html = JStr '''', options = JObj [(''type'', JStr ''jpeg'')]\<rparr> =
       \<lparr>calls = [Send \<lparr>status = 400, headers = [],
                        body = Json [(''error'', JStr ''HTML content is required''),
                                     (''received'', JStr ''string'')]\<rparr>],
        uncaught = None\<rparr>"
  using convert_without_content
          [of "\<lparr>html = JUndefined, options = JUndefined\<rparr>" "Some (engine_double 120 [])"]
        convert_without_content
          [of "\<lparr>html = JStr '''', options = JObj [(''type'', JStr ''jpeg'')]\<rparr>" None]
  by simp

section \<open>Defaults and overrides\<close>

text \<open>
  Claim C8. When the options of the request are an object, an option that the object
  supplies has the caller's value in the merged \<^verbatim>\<open>config\<close>, and an option that the
  object does not supply has its default: width 1920, height 1080, quality 100, fullPage
  true, type png. When the options are not an object (none in the request, \<^verbatim>\<open>null\<close>, or
  any other value, none of which has a property of these names), all five have their
  defaults. The merge comes before the calls on the engine, which take their arguments
  from it: the viewport is the width and the height of \<^verbatim>\<open>config\<close>, coerced, and the
  capture has the type and the fullPage of \<^verbatim>\<open>config\<close>.
\<close>

theorem config_defaults_and_overrides:
  "(\<forall>ps. options req = JObj ps \<longrightarrow>
       (distinct (map fst ps) \<longrightarrow>
          (\<forall>k v. (k, v) \<in> set ps \<longrightarrow> get (config_of (options req)) k = v))
     \<and> (''width'' \<notin> fst ` set ps \<longrightarrow> get (config_of (options req)) ''width'' = JNum (Fin 1920))
     \<and> (''height'' \<notin> fst ` set ps \<longrightarrow> get (config_of (options req)) ''height'' = JNum (Fin 1080))
     \<and> (''quality'' \<notin> fst ` set ps \<longrightarrow> get (config_of (options req)) ''quality'' = JNum (Fin 100))
     \<and> (''fullPage'' \<notin> fst ` set ps \<longrightarrow> get (config_of (options req)) ''fullPage'' = JBool True)
     \<and> (''type'' \<notin> fst ` set ps \<longrightarrow> get (config_of (options req)) ''type'' = JStr ''png''))
   \<and> ((\<forall>ps. options req \<noteq> JObj ps) \<longrightarrow>
         get (config_of (options req)) ''width'' = JNum (Fin 1920)
       \<and> get (config_of (options req)) ''height'' = JNum (Fin 1080)
       \<and> get (config_of (options req)) ''quality'' = JNum (Fin 100)
       \<and> get (config_of (options req)) ''fullPage'' = JBool True
       \<and> get (config_of (options req)) ''type'' = JStr ''png'')
   \<and> (\<forall>w h. SetViewport w h \<in> set (calls (convert br req)) \<longrightarrow>
         parseInt (get (config_of (options req)) ''width'') = Inr w
       \<and> parseInt (get (config_of (options req)) ''height'') = Inr h)
   \<and> (\<forall>opts. Screenshot opts \<in> set (calls (convert br req)) \<longrightarrow>
         type opts = get (config_of (options req)) ''type''
       \<and> fullPage opts = get (config_of (options req)) ''fullPage'')"
proof -
  let ?cfg = "config_of (options req)"
  have defaults:
    "get defaultOptions ''width'' = JNum (Fin 1920)"
    "get defaultOptions ''height'' = JNum (Fin 1080)"
    "get defaultOptions ''quality'' = JNum (Fin 100)"
    "get defaultOptions ''fullPage'' = JBool True"
    "get defaultOptions ''type'' = JStr ''png''"
    by (simp_all add: get_def defaultOptions_def)
  have object: "\<forall>ps. options req = JObj ps \<longrightarrow>
       (distinct (map fst ps) \<longrightarrow> (\<forall>k v. (k, v) \<in> set ps \<longrightarrow> get ?cfg k = v))
     \<and> (''width'' \<notin> fst ` set ps \<longrightarrow> get ?cfg ''width'' = JNum (Fin 1920))
     \<and> (''height'' \<notin> fst ` set ps \<longrightarrow> get ?cfg ''height'' = JNum (Fin 1080))
     \<and> (''quality'' \<notin> fst ` set ps \<longrightarrow> get ?cfg ''quality'' = JNum (Fin 100))
     \<and> (''fullPage'' \<notin> fst ` set ps \<longrightarrow> get ?cfg ''fullPage'' = JBool True)
     \<and> (''type'' \<notin> fst ` set ps \<longrightarrow> get ?cfg ''type'' = JStr ''png'')"
  proof (intro allI impI)
    fix ps
    assume ps: "options req = JObj ps"
    then have own: "own_props (options req) = ps"
      by simp
    have supplied: "distinct (map fst ps) \<longrightarrow> (\<forall>k v. (k, v) \<in> set ps \<longrightarrow> get ?cfg k = v)"
      using config_supplied [of "options req"] own by simp
    have absent: "\<And>k. k \<notin> fst ` set ps \<Longrightarrow> get ?cfg k = get defaultOptions k"
      using config_default [of _ "options req"] own by simp
    show "(distinct (map fst ps) \<longrightarrow> (\<forall>k v. (k, v) \<in> set ps \<longrightarrow> get ?cfg k = v))
     \<and> (''width'' \<notin> fst ` set ps \<longrightarrow> get ?cfg ''width'' = JNum (Fin 1920))
     \<and> (''height'' \<notin> fst ` set ps \<longrightarrow> get ?cfg ''height'' = JNum (Fin 1080))
     \<and> (''quality'' \<notin> fst ` set ps \<longrightarrow> get ?cfg ''quality'' = JNum (Fin 100))
     \<and> (''fullPage'' \<notin> fst ` set ps \<longrightarrow> get ?cfg ''fullPage'' = JBool True)
     \<and> (''type'' \<notin> fst ` set ps \<longrightarrow> get ?cfg ''type'' = JStr ''png'')"
      using supplied absent defaults by metis
  qed
  have none: "(\<forall>ps. options req \<noteq> JObj ps) \<longrightarrow>
         get ?cfg ''width'' = JNum (Fin 1920)
       \<and> get ?cfg ''height'' = JNum (Fin 1080)
       \<and> get ?cfg ''quality'' = JNum (Fin 100)
       \<and> get ?cfg ''fullPage'' = JBool True
       \<and> get ?cfg ''type'' = JStr ''png''"
  proof
    assume other: "\<forall>ps. options req \<noteq> JObj ps"
    have "get ?cfg k = get defaultOptions k"
      if "k \<in> {''width'', ''height'', ''quality'', ''fullPage'', ''type''}" for k
    proof (rule config_default, rule notI)
      assume "k \<in> fst ` set (own_props (options req))"
      from own_props_keys [OF other this] that show False
        by auto
    qed
    with defaults show "get ?cfg ''width'' = JNum (Fin 1920)
       \<and> get ?cfg ''height'' = JNum (Fin 1080)
       \<and> get ?cfg ''quality'' = JNum (Fin 100)
       \<and> get ?cfg ''fullPage'' = JBool True
       \<and> get ?cfg ''type'' = JStr ''png''"
      by simp
  qed
  have viewport: "\<forall>w h. SetViewport w h \<in> set (calls (convert br req)) \<longrightarrow>
         parseInt (get ?cfg ''width'') = Inr w \<and> parseInt (get ?cfg ''height'') = Inr h"
  proof (intro allI impI)
    fix w h
    assume "SetViewport w h \<in> set (calls (convert br req))"
    from convert_viewport [OF this] obtain b
      where inner: "SetViewport w h \<in> set (fst (render b (html req) ?cfg))"
      by blast
    obtain cs thrown where run: "render b (html req) ?cfg = (cs, thrown)"
      by (cases "render b (html req) ?cfg")
    from inner run render_calls(7) [OF run]
    show "parseInt (get ?cfg ''width'') = Inr w \<and> parseInt (get ?cfg ''height'') = Inr h"
      by simp
  qed
  have capture: "\<forall>opts. Screenshot opts \<in> set (calls (convert br req)) \<longrightarrow>
         type opts = get ?cfg ''type'' \<and> fullPage opts = get ?cfg ''fullPage''"
  proof (intro allI impI)
    fix opts
    assume "Screenshot opts \<in> set (calls (convert br req))"
    from convert_screenshot(2) [OF this] obtain b
      where inner: "Screenshot opts \<in> set (fst (render b (html req) ?cfg))"
      by blast
    obtain cs thrown where run: "render b (html req) ?cfg = (cs, thrown)"
      by (cases "render b (html req) ?cfg")
    from inner run render_calls(3) [OF run] have "screenshot_options ?cfg = Inr opts"
      by simp
    then show "type opts = get ?cfg ''type'' \<and> fullPage opts = get ?cfg ''fullPage''"
      by (auto simp: screenshot_options_def split: if_splits sum.splits)
  qed
  show ?thesis
    by (intro conjI object none viewport capture)
qed

theorem config_defaults_and_overrides_witness:
  "get (config_of (JObj [(''width'', JNum (Fin 800)), (''height'', JNum (Fin 600)),
                         (''fullPage'', JBool False)])) ''width'' = JNum (Fin 800)
   \<and> get (config_of (JObj [(''width'', JNum (Fin 800)), (''height'', JNum (Fin 600)),
                         (''fullPage'', JBool False)])) ''height'' = JNum (Fin 600)
   \<and> get (config_of (JObj [(''width'', JNum (Fin 800)), (''height'', JNum (Fin 600)),
                         (''fullPage'', JBool False)])) ''fullPage'' = JBool False
   \<and> get (config_of (JObj [(''width'', JNum (Fin 800)), (''height'', JNum (Fin 600)),
                         (''fullPage'', JBool False)])) ''quality'' = JNum (Fin 100)
   \<and> get (config_of (JObj [(''width'', JNum (Fin 800)), (''height'', JNum (Fin 600)),
                         (''fullPage'', JBool False)])) ''type'' = JStr ''png''
   \<and> calls (convert (Some (engine_double 120 []))
        \<lparr>html = hello,
         options = JObj [(''width'', JNum (Fin 800)), (''height'', JNum (Fin 600)),
                         (''fullPage'', JBool False)]\<rparr>) =
       [NewPage, SetViewport (Fin 800) (Fin 600),
        SetContent hello [''networkidle0'', ''domcontentloaded''] 30000,
        WaitForTimeout 1000,
        Screenshot \<lparr>type = JStr ''png'', fullPage = JBool False, quality = None\<rparr>,
        Send (image_response
               [(''width'', JNum (Fin 800)), (''height'', JNum (Fin 600)),
                (''fullPage'', JBool False), (''quality'', JNum (Fin 100)),
                (''type'', JStr ''png'')] ''png'' []),
        PageClose]"
proof -
  let ?ps = "[(''width'', JNum (Fin 800)), (''height'', JNum (Fin 600)),
              (''fullPage'', JBool False)]"
  let ?req = "\<lparr>html = hello, options = JObj ?ps\<rparr>"
  note merged = config_defaults_and_overrides [of ?req "Some (engine_double 120 [])",
      THEN conjunct1, rule_format, of ?ps]
  have object: "options ?req = JObj ?ps" and keys: "distinct (map fst ?ps)"
    by simp_all
  from merged [OF object] keys
  have supplied: "\<And>k v. (k, v) \<in> set ?ps \<Longrightarrow> get (config_of (options ?req)) k = v"
    by blast
  from merged [OF object]
  have absent: "get (config_of (options ?req)) ''quality'' = JNum (Fin 100)"
    "get (config_of (options ?req)) ''type'' = JStr ''png''"
    by simp_all
  have "get (config_of (options ?req)) ''width'' = JNum (Fin 800)"
    "get (config_of (options ?req)) ''height'' = JNum (Fin 600)"
    "get (config_of (options ?req)) ''fullPage'' = JBool False"
    by (rule supplied, simp)+
  moreover have "calls (convert (Some (engine_double 120 [])) ?req) =
       [NewPage, SetViewport (Fin 800) (Fin 600),
        SetContent hello [''networkidle0'', ''domcontentloaded''] 30000,
        WaitForTimeout 1000,
        Screenshot \<lparr>type = JStr ''png'', fullPage = JBool False, quality = None\<rparr>,
        Send (image_response
               [(''width'', JNum (Fin 800)), (''height'', JNum (Fin 600)),
                (''fullPage'', JBool False), (''quality'', JNum (Fin 100)),
                (''type'', JStr ''png'')] ''png'' []),
        PageClose]"
    by (simp add: eval_defs)
  ultimately show ?thesis
    using absent by simp
qed

section \<open>The options of the capture\<close>

text \<open>
  Claim C4. Whenever the handler reaches the capture, the options of the
  \<^verbatim>\<open>screenshot\<close> call have the type of the merged options, which validation has made
  \<^verbatim>\<open>jpeg\<close> or \<^verbatim>\<open>png\<close>. For \<^verbatim>\<open>png\<close> they have no quality field. For \<^verbatim>\<open>jpeg\<close>
  they have one, and its value is \<^verbatim>\<open>parseInt(config.quality)\<close>: 100 when the request
  gives no quality, the quality itself when the request gives an integer of magnitude
  below \<open>10\<^sup>2\<^sup>1\<close>, and the number that the digits spell when the request gives a string
  of decimal digits.
\<close>

theorem capture_quality:
  assumes "Screenshot opts \<in> set (calls (convert br req))"
  shows "type opts = get (config_of (options req)) ''type''
       \<and> (type opts = JStr ''jpeg'' \<or> type opts = JStr ''png'')
       \<and> (type opts = JStr ''png'' \<longrightarrow> quality opts = None)
       \<and> (type opts = JStr ''jpeg'' \<longrightarrow>
             (\<exists>v. quality opts = Some v
                  \<and> parseInt (get (config_of (options req)) ''quality'') = Inr v)
           \<and> (\<forall>ps. options req = JObj ps \<longrightarrow>
                 (''quality'' \<notin> fst ` set ps \<longrightarrow> quality opts = Some (Fin 100))
               \<and> (distinct (map fst ps) \<longrightarrow>
                     (\<forall>q. (''quality'', JNum (Fin q)) \<in> set ps \<and> is_double q \<and> \<bar>q\<bar> < 10 ^ 21
                          \<longrightarrow> quality opts = Some (Fin q))
                   \<and> (\<forall>n. (''quality'', JStr (show_nat n)) \<in> set ps \<and> is_double (int n)
                          \<longrightarrow> quality opts = Some (Fin (int n))))))"
proof -
  let ?cfg = "config_of (options req)"
  from convert_screenshot [OF assms]
  obtain b where valid: "array_includes [JStr ''png'', JStr ''jpeg''] (get ?cfg ''type'')"
    and shot: "Screenshot opts \<in> set (fst (render b (html req) ?cfg))"
    by blast
  obtain cs thrown where run: "render b (html req) ?cfg = (cs, thrown)"
    by (cases "render b (html req) ?cfg")
  from shot run render_calls(3) [OF run] have built: "screenshot_options ?cfg = Inr opts"
    by simp
  from built valid have kind: "type opts = get ?cfg ''type''"
    "type opts = JStr ''jpeg'' \<or> type opts = JStr ''png''"
    "type opts = JStr ''png'' \<longrightarrow> quality opts = None"
    by (auto simp: screenshot_options_def array_includes_def split: if_splits sum.splits)
  have jpeg: "\<exists>v. quality opts = Some v \<and> parseInt (get ?cfg ''quality'') = Inr v"
    if "type opts = JStr ''jpeg''"
    using built that kind(1)
    by (auto simp: screenshot_options_def split: if_splits sum.splits)
  have coerced: "quality opts = Some v"
    if "type opts = JStr ''jpeg''" and "parseInt (get ?cfg ''quality'') = Inr v" for v
    using jpeg [OF that(1)] that(2) by auto
  have request: "(''quality'' \<notin> fst ` set ps \<longrightarrow> quality opts = Some (Fin 100))
               \<and> (distinct (map fst ps) \<longrightarrow>
                     (\<forall>q. (''quality'', JNum (Fin q)) \<in> set ps \<and> is_double q \<and> \<bar>q\<bar> < 10 ^ 21
                          \<longrightarrow> quality opts = Some (Fin q))
                   \<and> (\<forall>n. (''quality'', JStr (show_nat n)) \<in> set ps \<and> is_double (int n)
                          \<longrightarrow> quality opts = Some (Fin (int n))))"
    if j: "type opts = JStr ''jpeg''" and ps: "options req = JObj ps" for ps
  proof (intro conjI impI allI)
    assume "''quality'' \<notin> fst ` set ps"
    with ps have "get ?cfg ''quality'' = JNum (Fin 100)"
      using config_default [of "''quality''" "options req"]
      by (simp add: get_def defaultOptions_def)
    then have "parseInt (get ?cfg ''quality'') = Inr (Fin 100)"
      by (simp add: parseInt_safe)
    with j show "quality opts = Some (Fin 100)"
      by (rule coerced)
  next
    fix q
    assume keys: "distinct (map fst ps)"
      and "(''quality'', JNum (Fin q)) \<in> set ps \<and> is_double q \<and> \<bar>q\<bar> < 10 ^ 21"
    then have q: "(''quality'', JNum (Fin q)) \<in> set ps" "is_double q" "\<bar>q\<bar> < 10 ^ 21"
      by simp_all
    from ps keys q(1) have "get ?cfg ''quality'' = JNum (Fin q)"
      using config_supplied [of "options req" "''quality''" "JNum (Fin q)"] by simp
    with q(2,3) have "parseInt (get ?cfg ''quality'') = Inr (Fin q)"
      by (simp add: parseInt_number)
    with j show "quality opts = Some (Fin q)"
      by (rule coerced)
  next
    fix n
    assume keys: "distinct (map fst ps)"
      and "(''quality'', JStr (show_nat n)) \<in> set ps \<and> is_double (int n)"
    then have n: "(''quality'', JStr (show_nat n)) \<in> set ps" "to_double n = Some n"
      by (simp_all add: is_double_def)
    from ps keys n(1) have "get ?cfg ''quality'' = JStr (show_nat n)"
      using config_supplied [of "options req" "''quality''" "JStr (show_nat n)"] by simp
    with n(2) have "parseInt (get ?cfg ''quality'') = Inr (Fin (int n))"
      by (simp add: parseInt_digits)
    with j show "quality opts = Some (Fin (int n))"
      by (rule coerced)
  qed
  from kind jpeg request show ?thesis
    by blast
qed

theorem capture_quality_witness:
  "Screenshot \<lparr>type = JStr ''jpeg'', fullPage = JBool True, quality = Some (Fin 80)\<rparr>
     \<in> set (calls (convert (Some (engine_double 120 []))
           \<lparr>html = hello, options = JObj [(''type'', JStr ''jpeg''), (''quality'', JNum (Fin 80))]\<rparr>))
   \<and> Screenshot \<lparr>type = JStr ''jpeg'', fullPage = JBool True, quality = Some (Fin 75)\<rparr>
     \<in> set (calls (convert (Some (engine_double 120 []))
           \<lparr>html = hello, options = JObj [(''type'', JStr ''jpeg''), (''quality'', JStr ''75'')]\<rparr>))
   \<and> Screenshot \<lparr>type = JStr ''png'', fullPage = JBool True, quality = None\<rparr>
     \<in> set (calls (convert (Some (engine_double 120 []))
           \<lparr>html = hello, options = JObj [(''quality'', JNum (Fin 80))]\<rparr>))
   \<and> parseInt (get (config_of (JObj [(''type'', JStr ''jpeg''), (''quality'', JStr ''75'')]))
         ''quality'') = Inr (Fin 75)"
proof -
  have jpeg: "Screenshot \<lparr>type = JStr ''jpeg'', fullPage = JBool True, quality = Some (Fin 80)\<rparr>
     \<in> set (calls (convert (Some (engine_double 120 []))
           \<lparr>html = hello, options = JObj [(''type'', JStr ''jpeg''), (''quality'', JNum (Fin 80))]\<rparr>))"
    by (simp add: eval_defs)
  have digits: "Screenshot \<lparr>type = JStr ''jpeg'', fullPage = JBool True, quality = Some (Fin 75)\<rparr>
     \<in> set (calls (convert (Some (engine_double 120 []))
           \<lparr>html = hello, options = JObj [(''type'', JStr ''jpeg''), (''quality'', JStr ''75'')]\<rparr>))"
    by (simp add: eval_defs)
  have png: "Screenshot \<lparr>type = JStr ''png'', fullPage = JBool True, quality = None\<rparr>
     \<in> set (calls (convert (Some (engine_double 120 []))
           \<lparr>html = hello, options = JObj [(''quality'', JNum (Fin 80))]\<rparr>))"
    by (simp add: eval_defs)
  from capture_quality [OF digits]
  have "parseInt (get (config_of (JObj [(''type'', JStr ''jpeg''), (''quality'', JStr ''75'')]))
         ''quality'') = Inr (Fin 75)"
    by simp
  with jpeg digits png capture_quality [OF jpeg] capture_quality [OF png] show ?thesis
    by simp
qed

section \<open>The response of a successful conversion\<close>

text \<open>
  Claim C9. A conversion succeeds when the page is made, the viewport set, the content
  loaded, the wait over and the capture returned; the handler then sends one response:
  status 200, the very buffer that \<^verbatim>\<open>screenshot\<close> returned as body, the
  \<^verbatim>\<open>Content-Type\<close> \<^verbatim>\<open>image/png\<close> for type \<^verbatim>\<open>png\<close> and \<^verbatim>\<open>image/jpeg\<close> for type
  \<^verbatim>\<open>jpeg\<close>, a \<^verbatim>\<open>Content-Disposition\<close> that names the file \<^verbatim>\<open>converted.<type>\<close>, and
  the number of bytes of the buffer as \<^verbatim>\<open>Content-Length\<close>. Conversely a response with
  status 200 is sent in no other run, and is this one.
\<close>

theorem image_response_of_success:
  \<open>(\<forall>b w h opts shot t.
       truthy (html req) \<and> get (config_of (options req)) ''type'' = JStr t
       \<and> (t = ''png'' \<or> t = ''jpeg'')
       \<and> br = Some b \<and> newPage_result b = None
       \<and> parseInt (get (config_of (options req)) ''width'') = Inr w
       \<and> parseInt (get (config_of (options req)) ''height'') = Inr h
       \<and> setViewport_result b w h = None
       \<and> setContent b (html req) 30000 = None
       \<and> waitForTimeout_result b 1000 = None
       \<and> screenshot_options (config_of (options req)) = Inr opts
       \<and> screenshot_result b opts = Inr shot
      \<longrightarrow> filter is_Send (calls (convert br req)) =
            [Send \<lparr>status = 200,
                   headers =
                     [(''Content-Type'',
                       JStr (if t = ''png'' then ''image/png'' else ''image/jpeg'')),
                      (''Content-Disposition'',
                       JStr (''attachment; filename="converted.'' @ t @ ''"'')),
                      (''Content-Length'', JNum (Fin (int (length shot))))],
                   body = Buffer shot\<rparr>])
   \<and> (\<forall>r. Send r \<in> set (calls (convert br req)) \<and> status r = 200 \<longrightarrow>
         (\<exists>b opts shot t. br = Some b
            \<and> screenshot_options (config_of (options req)) = Inr opts
            \<and> screenshot_result b opts = Inr shot
            \<and> get (config_of (options req)) ''type'' = JStr t \<and> (t = ''png'' \<or> t = ''jpeg'')
            \<and> r = \<lparr>status = 200,
                     headers =
                       [(''Content-Type'',
                         JStr (if t = ''png'' then ''image/png'' else ''image/jpeg'')),
                        (''Content-Disposition'',
                         JStr (''attachment; filename="converted.'' @ t @ ''"'')),
                        (''Content-Length'', JNum (Fin (int (length shot))))],
                     body = Buffer shot\<rparr>
            \<and> filter is_Send (calls (convert br req)) = [Send r]))\<close>
proof (intro conjI allI impI)
  fix b w h opts shot t
  let ?cfg = "config_of (options req)"
  assume all: \<open>truthy (html req) \<and> get ?cfg ''type'' = JStr t
       \<and> (t = ''png'' \<or> t = ''jpeg'')
       \<and> br = Some b \<and> newPage_result b = None
       \<and> parseInt (get ?cfg ''width'') = Inr w
       \<and> parseInt (get ?cfg ''height'') = Inr h
       \<and> setViewport_result b w h = None
       \<and> setContent b (html req) 30000 = None
       \<and> waitForTimeout_result b 1000 = None
       \<and> screenshot_options ?cfg = Inr opts
       \<and> screenshot_result b opts = Inr shot\<close>
  then have content: "truthy (html req)" and t: "get ?cfg ''type'' = JStr t" "t = ''png'' \<or> t = ''jpeg''"
    and br: "br = Some b" and page: "newPage_result b = None"
    and steps: "parseInt (get ?cfg ''width'') = Inr w" "parseInt (get ?cfg ''height'') = Inr h"
      "setViewport_result b w h = None" "setContent b (html req) 30000 = None"
      "waitForTimeout_result b 1000 = None" "screenshot_options ?cfg = Inr opts"
      "screenshot_result b opts = Inr shot"
    by simp_all
  from t have valid: "array_includes [JStr ''png'', JStr ''jpeg''] (get ?cfg ''type'')"
    by (auto simp: array_includes_def)
  from t(1) have ext: "toString (get ?cfg ''type'') = Inr t"
    by simp
  note run = render_succeeds [OF steps ext]
  from calls_with_surface(1) [OF content valid page run refl] br
  have "filter is_Send (calls (convert br req)) = [Send (image_response ?cfg t shot)]"
    by simp
  with t show \<open>filter is_Send (calls (convert br req)) =
            [Send \<lparr>status = 200,
                   headers =
                     [(''Content-Type'',
                       JStr (if t = ''png'' then ''image/png'' else ''image/jpeg'')),
                      (''Content-Disposition'',
                       JStr (''attachment; filename="converted.'' @ t @ ''"'')),
                      (''Content-Length'', JNum (Fin (int (length shot))))],
                   body = Buffer shot\<rparr>]\<close>
    by (auto simp: image_response_def)
next
  fix r
  let ?cfg = "config_of (options req)"
  let ?valid = "array_includes [JStr ''png'', JStr ''jpeg''] (get ?cfg ''type'')"
  assume "Send r \<in> set (calls (convert br req)) \<and> status r = 200"
  then have sending: "Send r \<in> set (calls (convert br req))" and ok: "status r = 200"
    by simp_all
  have content: "truthy (html req)"
  proof (rule ccontr)
    assume "\<not> truthy (html req)"
    from convert_no_content [OF this, of br] sending ok show False
      by (simp add: html_required_def)
  qed
  have valid: ?valid
  proof (rule ccontr)
    assume "\<not> ?valid"
    from convert_invalid_type [OF content this, of br] sending ok show False
      by (simp add: invalid_type_def)
  qed
  obtain b where br: "br = Some b"
  proof (cases br)
    case None
    with convert_no_browser [OF content valid] sending ok status_error_response(1) show ?thesis
      by auto
  next
    case (Some b)
    with that show ?thesis .
  qed
  have page: "newPage_result b = None"
  proof (cases "newPage_result b")
    case None
    then show ?thesis .
  next
    case (Some e)
    from convert_newPage_fails [OF content valid Some] sending ok br status_error_response(1)
    show ?thesis by auto
  qed
  obtain cs thrown where run: "render b (html req) ?cfg = (cs, thrown)"
    by (cases "render b (html req) ?cfg")
  have sent: "Send r \<in> set cs"
  proof (cases thrown)
    case None
    from calls_with_surface(1) [OF content valid page run None] sending br show ?thesis
      by simp
  next
    case (Some e)
    from calls_with_surface(2) [OF content valid page run Some] sending ok br
      status_error_response(1) show ?thesis
      by auto
  qed
  from render_calls(4) [OF run sent] obtain opts shot ext
    where quiet: "thrown = None"
      and opts: "screenshot_options ?cfg = Inr opts"
      and shot: "screenshot_result b opts = Inr shot"
      and ext: "toString (get ?cfg ''type'') = Inr ext"
      and r: "r = image_response ?cfg ext shot"
    by blast
  from valid obtain t where t: "get ?cfg ''type'' = JStr t" "t = ''png'' \<or> t = ''jpeg''"
    by (auto simp: array_includes_def)
  with ext have "ext = t"
    by simp
  with r t have shape: \<open>r = \<lparr>status = 200,
                     headers =
                       [(''Content-Type'',
                         JStr (if t = ''png'' then ''image/png'' else ''image/jpeg'')),
                        (''Content-Disposition'',
                         JStr (''attachment; filename="converted.'' @ t @ ''"'')),
                        (''Content-Length'', JNum (Fin (int (length shot))))],
                     body = Buffer shot\<rparr>\<close>
    by (auto simp: image_response_def)
  from render_calls(5) [OF run quiet] obtain pre ext' shot'
    where cs: "cs = pre @ [Send (image_response ?cfg ext' shot')]" and pre: "\<not> list_ex is_Send pre"
    by blast
  from pre have none: "filter is_Send pre = []"
    by (simp add: list_ex_iff filter_empty_conv)
  from sent cs pre have same: "Send r = Send (image_response ?cfg ext' shot')"
    by (auto simp: list_ex_iff)
  have only: "filter is_Send (calls (convert br req)) = [Send r]"
    using calls_with_surface(1) [OF content valid page run quiet] br cs none same by simp
  from br opts shot t shape only
  show \<open>\<exists>b opts shot t. br = Some b
            \<and> screenshot_options ?cfg = Inr opts
            \<and> screenshot_result b opts = Inr shot
            \<and> get ?cfg ''type'' = JStr t \<and> (t = ''png'' \<or> t = ''jpeg'')
            \<and> r = \<lparr>status = 200,
                     headers =
                       [(''Content-Type'',
                         JStr (if t = ''png'' then ''image/png'' else ''image/jpeg'')),
                        (''Content-Disposition'',
                         JStr (''attachment; filename="converted.'' @ t @ ''"'')),
                        (''Content-Length'', JNum (Fin (int (length shot))))],
                     body = Buffer shot\<rparr>
            \<and> filter is_Send (calls (convert br req)) = [Send r]\<close>
    by blast
qed

theorem image_response_of_success_witness:
  \<open>filter is_Send (calls (convert (Some (engine_double 120 [137, 80, 78]))
                           \<lparr>html = hello, options = JUndefined\<rparr>)) =
     [Send \<lparr>status = 200,
            headers = [(''Content-Type'', JStr ''image/png''),
                       (''Content-Disposition'', JStr ''attachment; filename="converted.png"''),
                       (''Content-Length'', JNum (Fin 3))],
            body = Buffer [137, 80, 78]\<rparr>]
   \<and> filter is_Send (calls (convert (Some (engine_double 120 [255, 216]))
                           \<lparr>html = hello,
                            options = JObj [(''type'', JStr ''jpeg''),
                                            (''quality'', JStr ''90'')]\<rparr>)) =
     [Send \<lparr>status = 200,
            headers = [(''Content-Type'', JStr ''image/jpeg''),
                       (''Content-Disposition'', JStr ''attachment; filename="converted.jpeg"''),
                       (''Content-Length'', JNum (Fin 2))],
            body = Buffer [255, 216]\<rparr>]\<close>
proof -
  let ?png = "\<lparr>html = hello, options = JUndefined\<rparr>"
  let ?jpeg = "\<lparr>html = hello,
               options = JObj [(''type'', JStr ''jpeg''), (''quality'', JStr ''90'')]\<rparr>"
  have png: "truthy (html ?png) \<and> get (config_of (options ?png)) ''type'' = JStr ''png''
       \<and> (''png'' = ''png'' \<or> ''png'' = ''jpeg'')
       \<and> Some (engine_double 120 [137, 80, 78]) = Some (engine_double 120 [137, 80, 78])
       \<and> newPage_result (engine_double 120 [137, 80, 78]) = None
       \<and> parseInt (get (config_of (options ?png)) ''width'') = Inr (Fin 1920)
       \<and> parseInt (get (config_of (options ?png)) ''height'') = Inr (Fin 1080)
       \<and> setViewport_result (engine_double 120 [137, 80, 78]) (Fin 1920) (Fin 1080) = None
       \<and> setContent (engine_double 120 [137, 80, 78]) (html ?png) 30000 = None
       \<and> waitForTimeout_result (engine_double 120 [137, 80, 78]) 1000 = None
       \<and> screenshot_options (config_of (options ?png)) =
           Inr \<lparr>type = JStr ''png'', fullPage = JBool True, quality = None\<rparr>
       \<and> screenshot_result (engine_double 120 [137, 80, 78])
             \<lparr>type = JStr ''png'', fullPage = JBool True, quality = None\<rparr> = Inr [137, 80, 78]"
    by (simp add: eval_defs)
  have jpeg: "truthy (html ?jpeg) \<and> get (config_of (options ?jpeg)) ''type'' = JStr ''jpeg''
       \<and> (''jpeg'' = ''png'' \<or> ''jpeg'' = ''jpeg'')
       \<and> Some (engine_double 120 [255, 216]) = Some (engine_double 120 [255, 216])
       \<and> newPage_result (engine_double 120 [255, 216]) = None
       \<and> parseInt (get (config_of (options ?jpeg)) ''width'') = Inr (Fin 1920)
       \<and> parseInt (get (config_of (options ?jpeg)) ''height'') = Inr (Fin 1080)
       \<and> setViewport_result (engine_double 120 [255, 216]) (Fin 1920) (Fin 1080) = None
       \<and> setContent (engine_double 120 [255, 216]) (html ?jpeg) 30000 = None
       \<and> waitForTimeout_result (engine_double 120 [255, 216]) 1000 = None
       \<and> screenshot_options (config_of (options ?jpeg)) =
           Inr \<lparr>type = JStr ''jpeg'', fullPage = JBool True, quality = Some (Fin 90)\<rparr>
       \<and> screenshot_result (engine_double 120 [255, 216])
             \<lparr>type = JStr ''jpeg'', fullPage = JBool True, quality = Some (Fin 90)\<rparr>
           = Inr [255, 216]"
    by (simp add: eval_defs)
  from image_response_of_success [of ?png "Some (engine_double 120 [137, 80, 78])",
      THEN conjunct1, rule_format, OF png]
    image_response_of_success [of ?jpeg "Some (engine_double 120 [255, 216])",
      THEN conjunct1, rule_format, OF jpeg]
  show ?thesis
    by simp
qed

section \<open>The surface of a run\<close>

text \<open>
  Claim C6, as the code has it. In every run \<^verbatim>\<open>newPage\<close> is called at most once, and
  \<^verbatim>\<open>page.close\<close> is called exactly once when a surface was created and not at all
  otherwise. When the conversion fails, the close precedes the error response. When it
  succeeds, the image is sent inside the \<^verbatim>\<open>try\<close> block and the \<^verbatim>\<open>finally\<close> block
  closes the page after that: the run ends with the response followed by the close.
  The claim puts the close before the result in every outcome, which the successful run
  of the counterexample does not do.
\<close>

theorem surface_lifecycle:
  "length (filter (\<lambda>c. c = NewPage) (calls (convert br req))) \<le> 1
   \<and> length (filter (\<lambda>c. c = PageClose) (calls (convert br req)))
       = (if surface_created br (calls (convert br req)) then 1 else 0)
   \<and> (surface_created br (calls (convert br req)) \<longrightarrow>
        (\<exists>pre r. status r = 200 \<and> calls (convert br req) = pre @ [Send r, PageClose])
        \<or> (\<forall>r. Send r \<in> set (calls (convert br req)) \<longrightarrow> status r \<noteq> 200)
           \<and> PageClose \<in> set (before_response (calls (convert br req))))"
proof (cases rule: convert_cases [where req = req and br = br])
  case no_content
  from convert_no_content [OF this, of br] show ?thesis
    by (simp add: surface_created_def split: option.splits)
next
  case invalid_type
  from convert_invalid_type [OF this, of br] show ?thesis
    by (simp add: surface_created_def split: option.splits)
next
  case no_browser
  from convert_no_browser [OF no_browser(1,2)] no_browser(3) show ?thesis
    by (simp add: surface_created_def)
next
  case (no_page b e)
  from convert_newPage_fails [OF no_page(1,2,4)] no_page(3,4) show ?thesis
    by (simp add: surface_created_def)
next
  case (page b cs thrown)
  note run = page(5)
  from render_calls(1,2) [OF run] have clean:
    "filter (\<lambda>c. c = NewPage) cs = []" "filter (\<lambda>c. c = PageClose) cs = []"
    by (auto simp: filter_empty_conv)
  show ?thesis
  proof (cases thrown)
    case None
    from render_calls(5) [OF run None] obtain pre ext shot
      where cs: "cs = pre @ [Send (image_response (config_of (options req)) ext shot)]"
      by blast
    have calls: "calls (convert br req) = NewPage # cs @ [PageClose]"
      using calls_with_surface(1) [OF page(1,2,4) run None] page(3) by simp
    have ok: "status (image_response (config_of (options req)) ext shot) = 200"
      by (simp add: image_response_def)
    have "calls (convert br req)
            = (NewPage # pre) @ [Send (image_response (config_of (options req)) ext shot), PageClose]"
      using calls cs by simp
    with ok have first: "\<exists>pre r. status r = 200 \<and> calls (convert br req) = pre @ [Send r, PageClose]"
      by blast
    have counts: "length (filter (\<lambda>c. c = NewPage) (calls (convert br req))) \<le> 1"
      "length (filter (\<lambda>c. c = PageClose) (calls (convert br req))) = 1"
      "surface_created br (calls (convert br req))"
      using calls clean page(3,4) by (simp_all add: surface_created_def)
    from counts first show ?thesis
      by simp
  next
    case (Some e)
    let ?r = "error_response (case close_result b of Some e' \<Rightarrow> e' | None \<Rightarrow> e)"
    have calls: "calls (convert br req) = NewPage # cs @ [PageClose, Send ?r]"
      using calls_with_surface(2) [OF page(1,2,4) run Some] page(3) by simp
    from render_calls(6) [OF run] Some have quiet: "\<not> list_ex is_Send cs"
      by simp
    then have unsent: "\<And>r. Send r \<notin> set cs"
      by (auto simp: list_ex_iff)
    have closed: "PageClose \<in> set (before_response (calls (convert br req)))"
      using calls before_response_error [OF quiet] by simp
    have errors: "\<forall>r. Send r \<in> set (calls (convert br req)) \<longrightarrow> status r \<noteq> 200"
      using calls unsent status_error_response(1) by auto
    have counts: "length (filter (\<lambda>c. c = NewPage) (calls (convert br req))) \<le> 1"
      "length (filter (\<lambda>c. c = PageClose) (calls (convert br req))) = 1"
      "surface_created br (calls (convert br req))"
      using calls clean page(3,4) by (simp_all add: surface_created_def)
    from counts closed errors show ?thesis
      by simp
  qed
qed

theorem surface_lifecycle_witness:
  "calls (convert (Some (engine_double 120 [])) \<lparr>html = hello, options = JUndefined\<rparr>) =
     [NewPage, SetViewport (Fin 1920) (Fin 1080),
      SetContent hello [''networkidle0'', ''domcontentloaded''] 30000,
      WaitForTimeout 1000,
      Screenshot \<lparr>type = JStr ''png'', fullPage = JBool True, quality = None\<rparr>,
      Send (image_response defaultOptions ''png'' []),
      PageClose]
   \<and> length (filter (\<lambda>c. c = PageClose)
        (calls (convert (Some (engine_double 120 [])) \<lparr>html = hello, options = JUndefined\<rparr>))) = 1
   \<and> PageClose \<in> set (before_response
        (calls (convert (Some (engine_double 45000 [])) \<lparr>html = hello, options = JUndefined\<rparr>)))"
proof -
  have run: "calls (convert (Some (engine_double 120 [])) \<lparr>html = hello, options = JUndefined\<rparr>) =
     [NewPage, SetViewport (Fin 1920) (Fin 1080),
      SetContent hello [''networkidle0'', ''domcontentloaded''] 30000,
      WaitForTimeout 1000,
      Screenshot \<lparr>type = JStr ''png'', fullPage = JBool True, quality = None\<rparr>,
      Send (image_response defaultOptions ''png'' []),
      PageClose]"
    by (simp add: eval_defs)
  have late: "calls (convert (Some (engine_double 45000 [])) \<lparr>html = hello, options = JUndefined\<rparr>) =
     [NewPage, SetViewport (Fin 1920) (Fin 1080),
      SetContent hello [''networkidle0'', ''domcontentloaded''] 30000,
      PageClose,
      Send (error_response (timeout_error 30000))]"
    by (simp add: eval_defs timeout_error_def)
  have made: "surface_created (Some (engine_double 120 []))
        (calls (convert (Some (engine_double 120 [])) \<lparr>html = hello, options = JUndefined\<rparr>))"
    "surface_created (Some (engine_double 45000 []))
        (calls (convert (Some (engine_double 45000 [])) \<lparr>html = hello, options = JUndefined\<rparr>))"
    by (simp_all add: run late surface_created_def) (simp_all add: engine_double_def)
  from surface_lifecycle [of "Some (engine_double 120 [])" "\<lparr>html = hello, options = JUndefined\<rparr>"]
    surface_lifecycle [of "Some (engine_double 45000 [])" "\<lparr>html = hello, options = JUndefined\<rparr>"]
    made run late
  show ?thesis
    by (simp add: before_response_def)
qed

theorem surface_lifecycle_counterexample:
  "surface_created (Some (engine_double 120 []))
     (calls (convert (Some (engine_double 120 [])) \<lparr>html = hello, options = JUndefined\<rparr>))
   \<and> PageClose \<notin> set (before_response
        (calls (convert (Some (engine_double 120 [])) \<lparr>html = hello, options = JUndefined\<rparr>)))
   \<and> before_response
        (calls (convert (Some (engine_double 120 [])) \<lparr>html = hello, options = JUndefined\<rparr>)) =
     [NewPage, SetViewport (Fin 1920) (Fin 1080),
      SetContent hello [''networkidle0'', ''domcontentloaded''] 30000,
      WaitForTimeout 1000,
      Screenshot \<lparr>type = JStr ''png'', fullPage = JBool True, quality = None\<rparr>]"
  by (simp add: eval_defs surface_created_def before_response_def)

section \<open>A load that exceeds the bound\<close>

text \<open>
  Claim C7, as the code has it. When the width and the height coerce, the viewport is
  set, and the content does not load within the 30000 milliseconds given to
  \<^verbatim>\<open>setContent\<close>, the run is: new page, viewport, content, close, response. The page
  is closed in every case. The response is made from the error that reaches the
  \<^verbatim>\<open>catch\<close> block: the \<^verbatim>\<open>TimeoutError\<close> when \<^verbatim>\<open>close\<close> resolves, which gives
  status 408 and a body that no 500 response has; the error of \<^verbatim>\<open>close\<close> when
  \<^verbatim>\<open>close\<close> rejects, which the counterexample shows to give 500.
\<close>

theorem load_timeout:
  assumes content: "truthy (html req)"
    and valid: "array_includes [JStr ''png'', JStr ''jpeg''] (get (config_of (options req)) ''type'')"
    and page: "newPage_result b = None"
    and width: "parseInt (get (config_of (options req)) ''width'') = Inr w"
    and height: "parseInt (get (config_of (options req)) ''height'') = Inr h"
    and viewport: "setViewport_result b w h = None"
    and late: "content_load b (html req) = Never
               \<or> (\<exists>ms. content_load b (html req) = Loads ms \<and> 30000 < ms)"
  shows "calls (convert (Some b) req) =
           [NewPage,
            SetViewport w h,
            SetContent (html req) [''networkidle0'', ''domcontentloaded''] 30000,
            PageClose,
            Send (error_response
                    (case close_result b of Some e \<Rightarrow> e | None \<Rightarrow> timeout_error 30000))]
         \<and> (close_result b = None \<longrightarrow>
               last (calls (convert (Some b) req)) =
                 Send \<lparr>status = 408, headers = [],
                       body = Json [(''error'',
                         JStr ''Request timeout. HTML content took too long to load.'')]\<rparr>)
         \<and> (\<forall>e. status (error_response e) = 500 \<longrightarrow>
               body (error_response e) \<noteq>
                 Json [(''error'', JStr ''Request timeout. HTML content took too long to load.'')])"
proof -
  let ?cfg = "config_of (options req)"
  from late have timeout: "setContent b (html req) 30000 = Some (timeout_error 30000)"
    by (auto simp: setContent_def)
  have run: "render b (html req) ?cfg =
      ([SetViewport w h,
        SetContent (html req) [''networkidle0'', ''domcontentloaded''] 30000],
       Some (timeout_error 30000))"
    using width height viewport timeout by (rule render_timeout)
  have calls: "calls (convert (Some b) req) =
           [NewPage,
            SetViewport w h,
            SetContent (html req) [''networkidle0'', ''domcontentloaded''] 30000,
            PageClose,
            Send (error_response
                    (case close_result b of Some e \<Rightarrow> e | None \<Rightarrow> timeout_error 30000))]"
    using calls_with_surface(2) [OF content valid page run refl] by simp
  have answer: "error_response (timeout_error 30000) =
      \<lparr>status = 408, headers = [],
       body = Json [(''error'', JStr ''Request timeout. HTML content took too long to load.'')]\<rparr>"
    by (simp add: error_response_def timeout_error_def)
  have distinct: "\<forall>e. status (error_response e) = 500 \<longrightarrow>
      body (error_response e) \<noteq>
        Json [(''error'', JStr ''Request timeout. HTML content took too long to load.'')]"
    by (simp add: error_response_def)
  from calls answer distinct show ?thesis
    by simp
qed

theorem load_timeout_witness:
  "last (calls (convert (Some (engine_double 45000 [])) \<lparr>html = hello, options = JUndefined\<rparr>)) =
     Send \<lparr>status = 408, headers = [],
           body = Json [(''error'', JStr ''Request timeout. HTML content took too long to load.'')]\<rparr>
   \<and> PageClose \<in> set (calls (convert (Some (engine_double 45000 []))
                            \<lparr>html = hello, options = JUndefined\<rparr>))"
proof -
  let ?b = "engine_double 45000 []"
  let ?req = "\<lparr>html = hello, options = JUndefined\<rparr>"
  have content: "truthy (html ?req)"
    by (simp add: hello_def)
  have valid: "array_includes [JStr ''png'', JStr ''jpeg''] (get (config_of (options ?req)) ''type'')"
    by (simp add: eval_defs)
  have page: "newPage_result ?b = None"
    by (simp add: engine_double_def)
  have width: "parseInt (get (config_of (options ?req)) ''width'') = Inr (Fin 1920)"
    and height: "parseInt (get (config_of (options ?req)) ''height'') = Inr (Fin 1080)"
    by (simp_all add: eval_defs)
  have viewport: "setViewport_result ?b (Fin 1920) (Fin 1080) = None"
    by (simp add: engine_double_def)
  have late: "content_load ?b (html ?req) = Never
               \<or> (\<exists>ms. content_load ?b (html ?req) = Loads ms \<and> 30000 < ms)"
    by (simp add: engine_double_def)
  have closes: "close_result ?b = None"
    by (simp add: engine_double_def)
  note timed_out = load_timeout [OF content valid page width height viewport late]
  show ?thesis
  proof (intro conjI)
    from timed_out closes
    show "last (calls (convert (Some ?b) ?req)) =
            Send \<lparr>status = 408, headers = [],
                  body = Json [(''error'',
                    JStr ''Request timeout. HTML content took too long to load.'')]\<rparr>"
      by blast
    from timed_out [THEN conjunct1]
    show "PageClose \<in> set (calls (convert (Some ?b) ?req))"
      by simp
  qed
qed

theorem load_timeout_counterexample:
  "content_load ((engine_double 45000 [])\<lparr>close_result := Some target_closed\<rparr>) hello = Loads 45000
   \<and> calls (convert (Some ((engine_double 45000 [])\<lparr>close_result := Some target_closed\<rparr>))
              \<lparr>html = hello, options = JUndefined\<rparr>) =
       [NewPage, SetViewport (Fin 1920) (Fin 1080),
        SetContent hello [''networkidle0'', ''domcontentloaded''] 30000,
        PageClose,
        Send \<lparr>status = 500, headers = [],
              body = Json [(''error'', JStr ''Internal server error during conversion''),
                           (''message'', JStr ''Protocol error: Target closed'')]\<rparr>]"
  by (simp add: eval_defs target_closed_def timeout_error_def)

section \<open>Requests without a browser\<close>

text \<open>
  Claim C1, as the code has it. The handler has no test of the browser. While the
  global \<^verbatim>\<open>browser\<close> is \<^verbatim>\<open>undefined\<close>, as it is before the launch completes and
  after a launch that failed, a request makes no call on the engine: one that passes the
  checks of content and type fails on reading \<^verbatim>\<open>browser.newPage\<close>, and the \<^verbatim>\<open>catch\<close>
  block answers 500 with the message of the \<^verbatim>\<open>TypeError\<close>. A browser that a signal
  handler has closed is still in the variable, and until the process exits
  \<^verbatim>\<open>newPage\<close> is called on it: the counterexample is such a request.
\<close>

theorem unset_browser:
  "browser startup = None
   \<and> browser (initBrowser (Inl e) startup) = None
   \<and> (browser s = None \<longrightarrow>
        (\<forall>c \<in> set (calls (convert (browser s) req)). is_Send c)
        \<and> (truthy (html req)
            \<and> array_includes [JStr ''png'', JStr ''jpeg''] (get (config_of (options req)) ''type'')
           \<longrightarrow> convert (browser s) req =
                 \<lparr>calls = [Send \<lparr>status = 500, headers = [],
                     body = Json [(''error'', JStr ''Internal server error during conversion''),
                                  (''message'',
                                   JStr ''Cannot read properties of undefined (reading 'newPage')'')]\<rparr>],
                  uncaught = None\<rparr>))"
proof -
  have unset: "browser startup = None" "browser (initBrowser (Inl e) startup) = None"
    by (simp_all add: startup_def initBrowser_def)
  have run: "(\<forall>c \<in> set (calls (convert None req)). is_Send c)
        \<and> (truthy (html req)
            \<and> array_includes [JStr ''png'', JStr ''jpeg''] (get (config_of (options req)) ''type'')
           \<longrightarrow> convert None req =
                 \<lparr>calls = [Send \<lparr>status = 500, headers = [],
                     body = Json [(''error'', JStr ''Internal server error during conversion''),
                                  (''message'',
                                   JStr ''Cannot read properties of undefined (reading 'newPage')'')]\<rparr>],
                  uncaught = None\<rparr>)"
  proof (cases rule: convert_cases [where req = req and br = None])
    case no_content
    from convert_no_content [OF this, of None] no_content show ?thesis
      by simp
  next
    case invalid_type
    from convert_invalid_type [OF this, of None] invalid_type show ?thesis
      by simp
  next
    case no_browser
    from convert_no_browser [OF no_browser(1,2)] show ?thesis
      by (simp add: error_response_def undefined_browser_error_def)
  next
    case (no_page b e)
    then show ?thesis by simp
  next
    case (page b cs thrown)
    then show ?thesis by simp
  qed
  from unset run show ?thesis
    by simp
qed

theorem unset_browser_witness:
  "browser (initBrowser (Inl target_closed) startup) = None
   \<and> serve (initBrowser (Inl target_closed) startup) \<lparr>html = hello, options = JUndefined\<rparr> =
       Some \<lparr>calls = [Send \<lparr>status = 500, headers = [],
                 body = Json [(''error'', JStr ''Internal server error during conversion''),
                              (''message'',
                               JStr ''Cannot read properties of undefined (reading 'newPage')'')]\<rparr>],
              uncaught = None\<rparr>"
proof -
  let ?s = "initBrowser (Inl target_closed) startup"
  let ?req = "\<lparr>html = hello, options = JUndefined\<rparr>"
  have content: "truthy (html ?req)"
    by (simp add: hello_def)
  have valid: "array_includes [JStr ''png'', JStr ''jpeg''] (get (config_of (options ?req)) ''type'')"
    by (simp add: eval_defs)
  have running: "\<not> exited ?s"
    by (simp add: initBrowser_def startup_def)
  note fact = unset_browser [of target_closed ?s ?req]
  from fact have unset: "browser ?s = None"
    by blast
  with fact content valid have "convert (browser ?s) ?req =
       \<lparr>calls = [Send \<lparr>status = 500, headers = [],
                 body = Json [(''error'', JStr ''Internal server error during conversion''),
                              (''message'',
                               JStr ''Cannot read properties of undefined (reading 'newPage')'')]\<rparr>],
              uncaught = None\<rparr>"
    by blast
  with unset running show ?thesis
    by (simp add: serve_def)
qed

theorem unset_browser_counterexample:
  "unavailable (signal_close (initBrowser
       (Inr ((engine_double 120 [])\<lparr>newPage_result := Some target_closed\<rparr>)) startup))
   \<and> serve (signal_close (initBrowser
       (Inr ((engine_double 120 [])\<lparr>newPage_result := Some target_closed\<rparr>)) startup))
       \<lparr>html = hello, options = JUndefined\<rparr> =
     Some \<lparr>calls = [NewPage,
                     Send \<lparr>status = 500, headers = [],
                       body = Json [(''error'', JStr ''Internal server error during conversion''),
                                    (''message'', JStr ''Protocol error: Target closed'')]\<rparr>],
            uncaught = None\<rparr>"
  by (simp add: unavailable_def signal_close_def initBrowser_def startup_def serve_def
        eval_defs target_closed_def)

section \<open>Options that coerce to NaN\<close>

text \<open>
  Claim C2, as the code has it. Validation looks at the content and at the type only.
  A request that passes these two checks is never answered 400, whatever its width,
  height and quality coerce to. When a page is created and the width and the height
  coerce to \<open>w\<close> and \<open>h\<close>, \<^verbatim>\<open>setViewport\<close> is the first call on the page and gets \<open>w\<close>
  and \<open>h\<close> as they are, \<^verbatim>\<open>NaN\<close> included; and a capture for type \<^verbatim>\<open>jpeg\<close> gets what
  the quality coerces to as it is, \<^verbatim>\<open>NaN\<close> included. A width or a height for which
  \<^verbatim>\<open>parseInt\<close> throws is not rejected either: the page is made and closed with no call
  in between, and the answer is made from the error. In the counterexample a width of
  \<^verbatim>\<open>"abc"\<close> reaches \<^verbatim>\<open>setViewport\<close> as \<^verbatim>\<open>NaN\<close>, on an engine that rejects it, and
  the answer is 500; a quality of \<^verbatim>\<open>"high"\<close> reaches \<^verbatim>\<open>screenshot\<close> as \<^verbatim>\<open>NaN\<close>.
\<close>

theorem nan_not_rejected:
  assumes content: "truthy (html req)"
    and valid: "array_includes [JStr ''png'', JStr ''jpeg''] (get (config_of (options req)) ''type'')"
  shows "(\<forall>r. Send r \<in> set (calls (convert br req)) \<longrightarrow> status r \<noteq> 400)
       \<and> (\<forall>b w h. br = Some b \<and> newPage_result b = None
                  \<and> parseInt (get (config_of (options req)) ''width'') = Inr w
                  \<and> parseInt (get (config_of (options req)) ''height'') = Inr h \<longrightarrow>
             take 2 (calls (convert br req)) = [NewPage, SetViewport w h])
       \<and> (\<forall>opts. Screenshot opts \<in> set (calls (convert br req))
                  \<and> get (config_of (options req)) ''type'' = JStr ''jpeg'' \<longrightarrow>
             (\<exists>q. parseInt (get (config_of (options req)) ''quality'') = Inr q
                  \<and> quality opts = Some q))
       \<and> (\<forall>b e. br = Some b \<and> newPage_result b = None
                  \<and> (parseInt (get (config_of (options req)) ''width'') = Inl e
                     \<or> (\<exists>w. parseInt (get (config_of (options req)) ''width'') = Inr w)
                        \<and> parseInt (get (config_of (options req)) ''height'') = Inl e) \<longrightarrow>
             calls (convert br req) =
               [NewPage, PageClose,
                Send (error_response (case close_result b of Some e' \<Rightarrow> e' | None \<Rightarrow> e))])"
proof (intro conjI allI impI)
  fix r
  assume "Send r \<in> set (calls (convert br req))"
  with content valid show "status r \<noteq> 400"
    by (rule validated_not_rejected)
next
  fix b w h
  assume created: "br = Some b \<and> newPage_result b = None
                  \<and> parseInt (get (config_of (options req)) ''width'') = Inr w
                  \<and> parseInt (get (config_of (options req)) ''height'') = Inr h"
  then have page: "newPage_result b = None" and br: "br = Some b"
    and w: "parseInt (get (config_of (options req)) ''width'') = Inr w"
    and h: "parseInt (get (config_of (options req)) ''height'') = Inr h"
    by simp_all
  obtain cs thrown where run: "render b (html req) (config_of (options req)) = (cs, thrown)"
    by (cases "render b (html req) (config_of (options req))")
  from render_viewport_first [OF run w h] obtain rest
    where cs: "cs = SetViewport w h # rest"
    by (cases cs) simp_all
  show "take 2 (calls (convert br req)) = [NewPage, SetViewport w h]"
  proof (cases thrown)
    case None
    from calls_with_surface(1) [OF content valid page run None] br cs show ?thesis
      by simp
  next
    case (Some e)
    from calls_with_surface(2) [OF content valid page run Some] br cs show ?thesis
      by simp
  qed
next
  fix opts
  assume "Screenshot opts \<in> set (calls (convert br req))
            \<and> get (config_of (options req)) ''type'' = JStr ''jpeg''"
  then have shot: "Screenshot opts \<in> set (calls (convert br req))"
    and jpeg: "get (config_of (options req)) ''type'' = JStr ''jpeg''"
    by simp_all
  from convert_screenshot(2) [OF shot] obtain b
    where inner: "Screenshot opts \<in> set (fst (render b (html req) (config_of (options req))))"
    by blast
  obtain cs thrown where run: "render b (html req) (config_of (options req)) = (cs, thrown)"
    by (cases "render b (html req) (config_of (options req))")
  from inner run render_calls(3) [OF run]
  have "screenshot_options (config_of (options req)) = Inr opts"
    by simp
  with jpeg show "\<exists>q. parseInt (get (config_of (options req)) ''quality'') = Inr q
                  \<and> quality opts = Some q"
    by (auto simp: screenshot_options_def split: sum.splits)
next
  fix b e
  assume thrown: "br = Some b \<and> newPage_result b = None
                  \<and> (parseInt (get (config_of (options req)) ''width'') = Inl e
                     \<or> (\<exists>w. parseInt (get (config_of (options req)) ''width'') = Inr w)
                        \<and> parseInt (get (config_of (options req)) ''height'') = Inl e)"
  then have br: "br = Some b" and page: "newPage_result b = None"
    by simp_all
  from thrown have run: "render b (html req) (config_of (options req)) = ([], Some e)"
    by (auto simp: render_throws)
  from calls_with_surface(2) [OF content valid page run refl] br
  show "calls (convert br req) =
          [NewPage, PageClose,
           Send (error_response (case close_result b of Some e' \<Rightarrow> e' | None \<Rightarrow> e))]"
    by simp
qed

theorem nan_not_rejected_witness:
  "parseInt (JStr ''abc'') = Inr NaN
   \<and> take 2 (calls (convert (Some engine_rejecting_nan)
        \<lparr>html = hello, options = JObj [(''width'', JStr ''abc'')]\<rparr>)) =
       [NewPage, SetViewport NaN (Fin 1080)]
   \<and> calls (convert (Some engine_rejecting_nan)
        \<lparr>html = hello,
         options = JObj [(''width'', JObj [(''toString'', JNum (Fin 1))])]\<rparr>) =
       [NewPage, PageClose,
        Send \<lparr>status = 500, headers = [],
              body = Json [(''error'', JStr ''Internal server error during conversion''),
                           (''message'', JStr ''Cannot convert object to primitive value'')]\<rparr>]"
proof -
  let ?req = "\<lparr>html = hello, options = JObj [(''width'', JStr ''abc'')]\<rparr>"
  let ?req' = "\<lparr>html = hello,
                options = JObj [(''width'', JObj [(''toString'', JNum (Fin 1))])]\<rparr>"
  have content: "truthy (html ?req)" "truthy (html ?req')"
    by (simp_all add: hello_def)
  have valid: "array_includes [JStr ''png'', JStr ''jpeg''] (get (config_of (options ?req)) ''type'')"
    "array_includes [JStr ''png'', JStr ''jpeg''] (get (config_of (options ?req')) ''type'')"
    by (simp_all add: eval_defs)
  have coerced: "Some engine_rejecting_nan = Some engine_rejecting_nan
      \<and> newPage_result engine_rejecting_nan = None
      \<and> parseInt (get (config_of (options ?req)) ''width'') = Inr NaN
      \<and> parseInt (get (config_of (options ?req)) ''height'') = Inr (Fin 1080)"
    by (simp add: eval_defs engine_rejecting_nan_def)
  have thrown: "Some engine_rejecting_nan = Some engine_rejecting_nan
      \<and> newPage_result engine_rejecting_nan = None
      \<and> (parseInt (get (config_of (options ?req')) ''width'') = Inl cannot_convert
         \<or> (\<exists>w. parseInt (get (config_of (options ?req')) ''width'') = Inr w)
            \<and> parseInt (get (config_of (options ?req')) ''height'') = Inl cannot_convert)"
    by (simp add: eval_defs engine_rejecting_nan_def parseInt_def)
  have nan: "parseInt (JStr ''abc'') = Inr NaN"
    by (simp add: eval_defs)
  have closes: "close_result engine_rejecting_nan = None"
    by (simp add: engine_rejecting_nan_def engine_double_def)
  from nan_not_rejected [OF content(1) valid(1), of "Some engine_rejecting_nan",
      THEN conjunct2, THEN conjunct1, rule_format, OF coerced]
    nan_not_rejected [OF content(2) valid(2), of "Some engine_rejecting_nan",
      THEN conjunct2, THEN conjunct2, THEN conjunct2, rule_format, OF thrown] nan closes
  show ?thesis
    by (simp add: error_response_def cannot_convert_def)
qed

theorem nan_not_rejected_counterexample:
  "parseInt (JStr ''abc'') = Inr NaN
   \<and> convert (Some engine_rejecting_nan)
        \<lparr>html = hello, options = JObj [(''width'', JStr ''abc'')]\<rparr> =
       \<lparr>calls = [NewPage, SetViewport NaN (Fin 1080), PageClose,
                  Send \<lparr>status = 500, headers = [],
                    body = Json [(''error'', JStr ''Internal server error during conversion''),
                                 (''message'', JStr ''Invalid parameters: integer value expected'')]\<rparr>],
        uncaught = None\<rparr>
   \<and> Screenshot \<lparr>type = JStr ''jpeg'', fullPage = JBool True, quality = Some NaN\<rparr>
       \<in> set (calls (convert (Some (engine_double 120 []))
            \<lparr>html = hello,
             options = JObj [(''type'', JStr ''jpeg''), (''quality'', JStr ''high'')]\<rparr>))"
  by (simp add: eval_defs engine_rejecting_nan_def invalid_parameters_def)

section \<open>An invalid type\<close>

text \<open>
  Claim C3, as the code has it. A request whose \<^verbatim>\<open>type\<close> option is anything but the
  string \<^verbatim>\<open>png\<close> or the string \<^verbatim>\<open>jpeg\<close> is answered 400 and the answer is all the
  run does, whatever the browser and the other options. With content, the body is the
  fixed message \<^verbatim>\<open>Invalid image type. Use "png" or "jpeg"\<close>: it names the two types
  accepted, not the value received. Without content, the check of the content comes
  first and the body is the one of a request without content.
\<close>

theorem invalid_type_rejected:
  assumes "options req = JObj ps" and "distinct (map fst ps)"
    and "(''type'', v) \<in> set ps" and "v \<noteq> JStr ''png''" and "v \<noteq> JStr ''jpeg''"
  shows \<open>(truthy (html req) \<longrightarrow>
            convert br req =
              \<lparr>calls = [Send \<lparr>status = 400, headers = [],
                  body = Json [(''error'', JStr ''Invalid image type. Use "png" or "jpeg"'')]\<rparr>],
               uncaught = None\<rparr>)
         \<and> (\<not> truthy (html req) \<longrightarrow>
            convert br req =
              \<lparr>calls = [Send \<lparr>status = 400, headers = [],
                  body = Json [(''error'', JStr ''HTML content is required''),
                               (''received'', JStr (typeof (html req)))]\<rparr>],
               uncaught = None\<rparr>)\<close>
proof -
  from assms(1-3) have "get (config_of (options req)) ''type'' = v"
    using config_supplied [of "options req" "''type''" v] by simp
  with assms(4,5)
  have invalid: "\<not> array_includes [JStr ''png'', JStr ''jpeg''] (get (config_of (options req)) ''type'')"
    by (simp add: array_includes_def)
  show ?thesis
    using convert_invalid_type [OF _ invalid, of br] convert_no_content [of req br]
    by (simp add: invalid_type_def html_required_def)
qed

theorem invalid_type_rejected_witness:
  \<open>convert (Some (engine_double 120 []))
      \<lparr>html = hello, options = JObj [(''width'', JNum (Fin 800)), (''type'', JStr ''gif'')]\<rparr> =
     \<lparr>calls = [Send \<lparr>status = 400, headers = [],
         body = Json [(''error'', JStr ''Invalid image type. Use "png" or "jpeg"'')]\<rparr>],
      uncaught = None\<rparr>
   \<and> convert None
      \<lparr>html = JUndefined, options = JObj [(''type'', JStr ''PNG'')]\<rparr> =
     \<lparr>calls = [Send \<lparr>status = 400, headers = [],
         body = Json [(''error'', JStr ''HTML content is required''),
                      (''received'', JStr ''undefined'')]\<rparr>],
      uncaught = None\<rparr>\<close>
  using invalid_type_rejected
          [of "\<lparr>html = hello, options = JObj [(''width'', JNum (Fin 800)), (''type'', JStr ''gif'')]\<rparr>"
              "[(''width'', JNum (Fin 800)), (''type'', JStr ''gif'')]" "JStr ''gif''"
              "Some (engine_double 120 [])"]
        invalid_type_rejected
          [of "\<lparr>html = JUndefined, options = JObj [(''type'', JStr ''PNG'')]\<rparr>"
              "[(''type'', JStr ''PNG'')]" "JStr ''PNG''" None]
  by (simp add: hello_def)

theorem invalid_type_rejected_counterexample:
  \<open>convert (Some (engine_double 120 []))
      \<lparr>html = hello, options = JObj [(''type'', JStr ''gif'')]\<rparr> =
     \<lparr>calls = [Send \<lparr>status = 400, headers = [],
         body = Json [(''error'', JStr ''Invalid image type. Use "png" or "jpeg"'')]\<rparr>],
      uncaught = None\<rparr>
   \<and> \<not> names_value
         \<lparr>status = 400, headers = [],
          body = Json [(''error'', JStr ''Invalid image type. Use "png" or "jpeg"'')]\<rparr> ''gif''\<close>
  by (simp add: eval_defs invalid_type_def names_value_def)

section \<open>A quality out of range\<close>

text \<open>
  Claim C10, as the code has it. Nothing compares the quality with 0 or 100: a request of
  type \<^verbatim>\<open>jpeg\<close> with content is never answered 400, whatever its quality. When the
  quality is an integer \<open>q\<close> of magnitude below \<open>10\<^sup>2\<^sup>1\<close>, every capture of the run has the
  quality \<open>q\<close> itself, and the capture is made whenever the steps before it succeed. The
  bound is where the printing of numbers changes: \<^verbatim>\<open>parseInt\<close> reads the quality through
  its string, which from \<open>10\<^sup>2\<^sup>1\<close> on is in exponent notation, and stops at the point or
  at the \<^verbatim>\<open>e\<close>. In the counterexample the quality \<^verbatim>\<open>1e21\<close> is captured as 1.
\<close>

theorem quality_unchecked:
  assumes opts: "options req = JObj ps" "distinct (map fst ps)"
    and jpeg: "(''type'', JStr ''jpeg'') \<in> set ps"
    and content: "truthy (html req)"
  shows "(\<forall>r. Send r \<in> set (calls (convert br req)) \<longrightarrow> status r \<noteq> 400)
       \<and> (\<forall>q. (''quality'', JNum (Fin q)) \<in> set ps \<and> is_double q \<and> \<bar>q\<bar> < 10 ^ 21 \<longrightarrow>
             (\<forall>opts. Screenshot opts \<in> set (calls (convert br req)) \<longrightarrow>
                quality opts = Some (Fin q))
           \<and> (\<forall>b w h. br = Some b \<and> newPage_result b = None
                  \<and> parseInt (get (config_of (options req)) ''width'') = Inr w
                  \<and> parseInt (get (config_of (options req)) ''height'') = Inr h
                  \<and> setViewport_result b w h = None
                  \<and> setContent b (html req) 30000 = None
                  \<and> waitForTimeout_result b 1000 = None \<longrightarrow>
                Screenshot \<lparr>type = JStr ''jpeg'',
                            fullPage = get (config_of (options req)) ''fullPage'',
                            quality = Some (Fin q)\<rparr> \<in> set (calls (convert br req))))"
proof -
  let ?cfg = "config_of (options req)"
  from opts jpeg have type: "get ?cfg ''type'' = JStr ''jpeg''"
    using config_supplied [of "options req" "''type''" "JStr ''jpeg''"] by simp
  then have valid: "array_includes [JStr ''png'', JStr ''jpeg''] (get ?cfg ''type'')"
    by (simp add: array_includes_def)
  have accepted: "\<forall>r. Send r \<in> set (calls (convert br req)) \<longrightarrow> status r \<noteq> 400"
    using validated_not_rejected [OF content valid] by blast
  have unchanged: "(\<forall>opts. Screenshot opts \<in> set (calls (convert br req)) \<longrightarrow>
                quality opts = Some (Fin q))
           \<and> (\<forall>b w h. br = Some b \<and> newPage_result b = None
                  \<and> parseInt (get ?cfg ''width'') = Inr w
                  \<and> parseInt (get ?cfg ''height'') = Inr h
                  \<and> setViewport_result b w h = None
                  \<and> setContent b (html req) 30000 = None
                  \<and> waitForTimeout_result b 1000 = None \<longrightarrow>
                Screenshot \<lparr>type = JStr ''jpeg'', fullPage = get ?cfg ''fullPage'',
                            quality = Some (Fin q)\<rparr> \<in> set (calls (convert br req)))"
    if q: "(''quality'', JNum (Fin q)) \<in> set ps \<and> is_double q \<and> \<bar>q\<bar> < 10 ^ 21" for q
  proof -
    from q opts have "get ?cfg ''quality'' = JNum (Fin q)"
      using config_supplied [of "options req" "''quality''" "JNum (Fin q)"] by simp
    with q have "parseInt (get ?cfg ''quality'') = Inr (Fin q)"
      by (simp add: parseInt_number)
    with type have options: "screenshot_options ?cfg =
        Inr \<lparr>type = JStr ''jpeg'', fullPage = get ?cfg ''fullPage'', quality = Some (Fin q)\<rparr>"
      by (simp add: screenshot_options_def)
    have passed: "\<forall>opts. Screenshot opts \<in> set (calls (convert br req)) \<longrightarrow>
                quality opts = Some (Fin q)"
    proof (intro allI impI)
      fix opts
      assume shot: "Screenshot opts \<in> set (calls (convert br req))"
      from convert_screenshot(2) [OF shot] obtain b
        where inner: "Screenshot opts \<in> set (fst (render b (html req) ?cfg))"
        by blast
      obtain cs thrown where run: "render b (html req) ?cfg = (cs, thrown)"
        by (cases "render b (html req) ?cfg")
      from inner run render_calls(3) [OF run] have "screenshot_options ?cfg = Inr opts"
        by simp
      with options show "quality opts = Some (Fin q)"
        by auto
    qed
    have reached: "Screenshot \<lparr>type = JStr ''jpeg'', fullPage = get ?cfg ''fullPage'',
                               quality = Some (Fin q)\<rparr> \<in> set (calls (convert br req))"
      if ok: "br = Some b \<and> newPage_result b = None
                  \<and> parseInt (get ?cfg ''width'') = Inr w
                  \<and> parseInt (get ?cfg ''height'') = Inr h
                  \<and> setViewport_result b w h = None
                  \<and> setContent b (html req) 30000 = None
                  \<and> waitForTimeout_result b 1000 = None" for b w h
    proof -
      from ok have br: "br = Some b" and page: "newPage_result b = None"
        and steps: "parseInt (get ?cfg ''width'') = Inr w" "parseInt (get ?cfg ''height'') = Inr h"
          "setViewport_result b w h = None"
          "setContent b (html req) 30000 = None" "waitForTimeout_result b 1000 = None"
        by simp_all
      obtain cs thrown where run: "render b (html req) ?cfg = (cs, thrown)"
        by (cases "render b (html req) ?cfg")
      from render_captures [OF steps options] run
      have inner: "Screenshot \<lparr>type = JStr ''jpeg'', fullPage = get ?cfg ''fullPage'',
                               quality = Some (Fin q)\<rparr> \<in> set cs"
        by simp
      have "set cs \<subseteq> set (calls (convert br req))"
      proof (cases thrown)
        case None
        from calls_with_surface(1) [OF content valid page run None] br show ?thesis
          by auto
      next
        case (Some e)
        from calls_with_surface(2) [OF content valid page run Some] br show ?thesis
          by auto
      qed
      with inner show ?thesis
        by auto
    qed
    from passed reached show ?thesis
      by blast
  qed
  from accepted unchanged show ?thesis
    by blast
qed

theorem quality_unchecked_witness:
  "Screenshot \<lparr>type = JStr ''jpeg'', fullPage = JBool True, quality = Some (Fin 150)\<rparr>
     \<in> set (calls (convert (Some (engine_double 120 []))
          \<lparr>html = hello,
           options = JObj [(''type'', JStr ''jpeg''), (''quality'', JNum (Fin 150))]\<rparr>))
   \<and> Screenshot \<lparr>type = JStr ''jpeg'', fullPage = JBool True, quality = Some (Fin (- 5))\<rparr>
     \<in> set (calls (convert (Some (engine_double 120 []))
          \<lparr>html = hello,
           options = JObj [(''type'', JStr ''jpeg''), (''quality'', JNum (Fin (- 5)))]\<rparr>))"
proof -
  let ?b = "engine_double 120 []"
  have run: "Screenshot \<lparr>type = JStr ''jpeg'', fullPage = JBool True, quality = Some (Fin q)\<rparr>
     \<in> set (calls (convert (Some ?b)
          \<lparr>html = hello,
           options = JObj [(''type'', JStr ''jpeg''), (''quality'', JNum (Fin q))]\<rparr>))"
    if small: "\<bar>q\<bar> < 2 ^ 53" for q
  proof -
    let ?ps = "[(''type'', JStr ''jpeg''), (''quality'', JNum (Fin q))]"
    let ?req = "\<lparr>html = hello, options = JObj ?ps\<rparr>"
    have opts: "options ?req = JObj ?ps" "distinct (map fst ?ps)"
      by simp_all
    have jpeg: "(''type'', JStr ''jpeg'') \<in> set ?ps"
      by simp
    have content: "truthy (html ?req)"
      by (simp add: hello_def)
    from small have quality: "(''quality'', JNum (Fin q)) \<in> set ?ps \<and> is_double q \<and> \<bar>q\<bar> < 10 ^ 21"
      by (simp add: is_double_small)
    have ok: "Some ?b = Some ?b \<and> newPage_result ?b = None
                \<and> parseInt (get (config_of (options ?req)) ''width'') = Inr (Fin 1920)
                \<and> parseInt (get (config_of (options ?req)) ''height'') = Inr (Fin 1080)
                \<and> setViewport_result ?b (Fin 1920) (Fin 1080) = None
                \<and> setContent ?b (html ?req) 30000 = None
                \<and> waitForTimeout_result ?b 1000 = None"
      by (simp add: eval_defs)
    have full: "get (config_of (options ?req)) ''fullPage'' = JBool True"
      by (simp add: eval_defs)
    from quality_unchecked [OF opts jpeg content, of "Some ?b",
        THEN conjunct2, rule_format, OF quality, THEN conjunct2, rule_format, OF ok] full
    show ?thesis
      by simp
  qed
  from run [of 150] run [of "- 5"] show ?thesis
    by simp
qed

theorem quality_unchecked_counterexample:
  "is_double 1000000000000000000000
   \<and> toString (JNum (Fin 1000000000000000000000)) = Inr ''1e+21''
   \<and> Screenshot \<lparr>type = JStr ''jpeg'', fullPage = JBool True, quality = Some (Fin 1)\<rparr>
     \<in> set (calls (convert (Some (engine_double 120 []))
          \<lparr>html = hello,
           options = JObj [(''type'', JStr ''jpeg''),
                           (''quality'', JNum (Fin 1000000000000000000000))]\<rparr>))"
  by (simp add: eval_defs parseInt_1e21 show_num_def show_int_1e21 is_double_1e21)

end
